theory Spec2Isabelle
  imports Main "HOL-Library.AList"
begin

section \<open>Python values, errors and dictionaries\<close>

text \<open>
  Strings and byte strings are both character lists; a character is one code point
  below 256 (request lines and headers are decoded as Latin-1 by the HTTP library).
  A Python dictionary is an association list in insertion order; assignment to a key
  is \<open>AList.update\<close> (an existing key keeps its position, a new key goes to the end)
  and lookup is \<open>map_of\<close>.
\<close>

datatype error =
    AssertionError
  | AttributeError
  | KeyError
  | ValueError
  | TypeError
  | BadGzipFile
  | HandlerError string

datatype pyval =
    PNone
  | PBool bool
  | PInt int
  | PStr string
  | PList "pyval list"
  | PDict "(pyval \<times> pyval) list"

type_synonym 'v dict = "(string \<times> 'v) list"

definition CR :: char where "CR = CHR 0x0D"
definition LF :: char where "LF = CHR 0x0A"

text \<open>\<open>a in b\<close> on two strings: \<open>a\<close> occurs in \<open>b\<close> as a contiguous substring.\<close>

fun str_in :: "string \<Rightarrow> string \<Rightarrow> bool" where
  "str_in a [] = (a = [])"
| "str_in a (y # ys) = (take (length a) (y # ys) = a \<or> str_in a ys)"

text \<open>\<open>s.replace(old, new)\<close> for a one-character \<open>old\<close>.\<close>

definition replace_char :: "char \<Rightarrow> char \<Rightarrow> string \<Rightarrow> string" where
  "replace_char old new s = map (\<lambda>c. if c = old then new else c) s"

text \<open>
  \<open>str.lower()\<close> on code points below 256: the ASCII capitals and the Latin-1 capitals
  (\<open>0xC0\<close> to \<open>0xDE\<close> without the multiplication sign \<open>0xD7\<close>) move up by 32.
\<close>

definition lower_char :: "char \<Rightarrow> char" where
  "lower_char c =
     (let n = (of_char c :: nat)
      in if (65 \<le> n \<and> n \<le> 90) \<or> (192 \<le> n \<and> n \<le> 222 \<and> n \<noteq> 215)
         then char_of (n + 32) else c)"

definition lower :: "string \<Rightarrow> string" where
  "lower s = map lower_char s"

text \<open>ASCII whitespace, as \<open>bytes.strip()\<close> and the integer parser see it.\<close>

definition is_space :: "char \<Rightarrow> bool" where
  "is_space c = (c \<in> set [CHR '' '', CHR 0x09, CHR 0x0A, CHR 0x0B, CHR 0x0C, CHR 0x0D])"

definition strip :: "string \<Rightarrow> string" where
  "strip s = rev (dropWhile is_space (rev (dropWhile is_space s)))"

subsection \<open>The built-in \<open>int(text, base)\<close>\<close>

text \<open>
  The interpreter's integer parser: leading whitespace, an optional sign, for base 16
  an optional \<open>0x\<close> prefix (one underscore may follow it), then digits of the base
  with single underscores between them, then trailing whitespace up to the end of the
  text. \<open>None\<close> is the \<open>ValueError\<close>. For a base that is not a power of two the
  interpreter refuses a text with more digits than its limit (every digit counts, leading
  zeros too, underscores do not); the limit is the interpreter's default of 4300, which
  nothing in the repository changes.
\<close>

definition default_max_str_digits :: nat where
  "default_max_str_digits = 4300"

definition power_of_two :: "nat \<Rightarrow> bool" where
  "power_of_two b = (b \<in> set [2, 4, 8, 16, 32])"

definition digit_value :: "char \<Rightarrow> nat option" where
  "digit_value c =
     (let n = (of_char c :: nat)
      in if 48 \<le> n \<and> n \<le> 57 then Some (n - 48)
         else if 97 \<le> n \<and> n \<le> 122 then Some (n - 87)
         else if 65 \<le> n \<and> n \<le> 90 then Some (n - 55)
         else None)"

fun scan_digits :: "nat \<Rightarrow> string \<Rightarrow> char \<Rightarrow> nat \<Rightarrow> nat \<Rightarrow> (nat \<times> nat \<times> string) option" where
  "scan_digits b [] prev acc n = (if prev = CHR ''_'' then None else Some (acc, n, []))"
| "scan_digits b (c # cs) prev acc n =
     (if c = CHR ''_'' then (if prev = CHR ''_'' then None else scan_digits b cs c acc n)
      else (case digit_value c of
              Some d \<Rightarrow>
                if d < b then scan_digits b cs c (acc * b + d) (n + 1)
                else if prev = CHR ''_'' then None else Some (acc, n, c # cs)
            | None \<Rightarrow> if prev = CHR ''_'' then None else Some (acc, n, c # cs)))"

definition skip_prefix :: "nat \<Rightarrow> string \<Rightarrow> string" where
  "skip_prefix b s =
     (case s of
        c0 # c1 # rest \<Rightarrow>
          if c0 = CHR ''0'' \<and>
             ((b = 16 \<and> (c1 = CHR ''x'' \<or> c1 = CHR ''X'')) \<or>
              (b = 8 \<and> (c1 = CHR ''o'' \<or> c1 = CHR ''O'')) \<or>
              (b = 2 \<and> (c1 = CHR ''b'' \<or> c1 = CHR ''B'')))
          then (case rest of c2 # rest' \<Rightarrow> if c2 = CHR ''_'' then rest' else rest | [] \<Rightarrow> rest)
          else s
      | _ \<Rightarrow> s)"

definition py_long_from_string :: "nat \<Rightarrow> string \<Rightarrow> int option" where
  "py_long_from_string b s =
     (let s1 = dropWhile is_space s;
          sign = (case s1 of c # _ \<Rightarrow> if c = CHR ''-'' then (-1::int) else 1 | [] \<Rightarrow> 1);
          s2 = (case s1 of c # cs \<Rightarrow> if c = CHR ''+'' \<or> c = CHR ''-'' then cs else s1 | [] \<Rightarrow> s1);
          s3 = skip_prefix b s2
      in case s3 of
           [] \<Rightarrow> None
         | c # _ \<Rightarrow>
             if c = CHR ''_'' then None
             else (case scan_digits b s3 (CHR 0x00) 0 0 of
                     None \<Rightarrow> None
                   | Some (v, n, rest) \<Rightarrow>
                       if n = 0 then None
                       else if \<not> power_of_two b \<and> n > default_max_str_digits then None
                       else if dropWhile is_space rest = [] then Some (sign * int v)
                       else None))"

text \<open>
  \<open>int(s)\<close> on a string: code points from 127 on are first turned into a space (the
  Latin-1 spaces \<open>0x85\<close> and \<open>0xA0\<close>) or into a character that no number
  contains; then the parser runs in base 10.
\<close>

definition to_ascii_space :: "char \<Rightarrow> char" where
  "to_ascii_space c =
     (let n = (of_char c :: nat)
      in if n < 127 then c else if n = 133 \<or> n = 160 then CHR '' '' else CHR ''?'')"

definition int_of_str :: "string \<Rightarrow> int option" where
  "int_of_str s = py_long_from_string 10 (map to_ascii_space s)"

text \<open>\<open>int(b, 16)\<close> on a byte string.\<close>

definition int_of_bytes16 :: "string \<Rightarrow> int option" where
  "int_of_bytes16 s = py_long_from_string 16 s"

subsection \<open>\<open>str(n)\<close> of a length\<close>

function str_nat :: "nat \<Rightarrow> string" where
  "str_nat n =
     (if n < 10 then [char_of (48 + n)] else str_nat (n div 10) @ [char_of (48 + n mod 10)])"
  by pat_completeness auto
termination
  by (relation "measure (\<lambda>n. n)") auto

declare str_nat.simps [simp del]

section \<open>The request stream (rfile)\<close>

text \<open>
  The buffered reader on the connection: the bytes still to come, and a schedule of
  short reads. \<open>read(size)\<close> with a negative size returns everything up to the end of
  the stream. Otherwise it returns at most \<open>size\<close> bytes; while the schedule is not
  empty its head \<open>s\<close> caps the read at \<open>s + 1\<close> bytes (a short read still delivers
  data), and with an empty schedule the read is full. An empty result is the end of the
  stream. \<open>readline()\<close> returns the bytes up to and including the next line feed, or
  all remaining bytes when there is none.
\<close>

record rfile =
  buf :: string
  short_reads :: "nat list"

definition rfile_read :: "int \<Rightarrow> rfile \<Rightarrow> string \<times> rfile" where
  "rfile_read sz rf =
     (if sz < 0 then (buf rf, rf\<lparr>buf := []\<rparr>)
      else (let k = (case short_reads rf of [] \<Rightarrow> nat sz | s # _ \<Rightarrow> min (nat sz) (Suc s))
            in (take k (buf rf),
                rf\<lparr>buf := drop k (buf rf), short_reads := tl (short_reads rf)\<rparr>)))"

definition rfile_readline :: "rfile \<Rightarrow> string \<times> rfile" where
  "rfile_readline rf =
     (case dropWhile (\<lambda>c. c \<noteq> LF) (buf rf) of
        [] \<Rightarrow> (buf rf, rf\<lparr>buf := []\<rparr>)
      | c # rest \<Rightarrow> (takeWhile (\<lambda>c. c \<noteq> LF) (buf rf) @ [LF], rf\<lparr>buf := rest\<rparr>))"

section \<open>Process-wide defaults (class Default)\<close>

record Default =
  Default_headers :: "string dict"
  banner :: "string option"

definition headers_of :: "Default \<Rightarrow> string dict" where
  "headers_of cls = Default_headers cls"

definition bad_chars :: string where
  "bad_chars = [CHR '' '', CHR '':'', CR, LF, CHR 0x09, CHR 0x08, CHR 0x00]"

text \<open>
  The loop of \<open>set_headers\<close> over the keys of the copied dictionary. Each key must be a
  string without any of the bad characters and each value a string; the value is stored
  with line feeds and carriage returns replaced by spaces. The first failed assertion
  ends the loop.
\<close>

fun set_headers_loop :: "(pyval \<times> pyval) list \<Rightarrow> error + string dict" where
  "set_headers_loop [] = Inr []"
| "set_headers_loop ((k, v) # rest) =
     (case k of
        PStr header \<Rightarrow>
          if \<exists>bad_char \<in> set bad_chars. str_in [bad_char] header then Inl AssertionError
          else (case v of
                  PStr header_value \<Rightarrow>
                    (case set_headers_loop rest of
                       Inl e \<Rightarrow> Inl e
                     | Inr hs \<Rightarrow>
                         Inr ((header, replace_char CR (CHR '' '')
                                         (replace_char LF (CHR '' '') header_value)) # hs))
                | _ \<Rightarrow> Inl AssertionError)
      | _ \<Rightarrow> Inl AssertionError)"

text \<open>
  \<open>Default.set_headers\<close>: the result is the raised error or the returned copy, paired
  with the class state afterwards. The class attribute is assigned only after the loop.
\<close>

definition set_headers :: "Default \<Rightarrow> pyval \<Rightarrow> (error + string dict) \<times> Default" where
  "set_headers cls headers =
     (case headers of
        PDict al \<Rightarrow>
          (case set_headers_loop al of
             Inl e \<Rightarrow> (Inl e, cls)
           | Inr hs \<Rightarrow> (Inr hs, cls\<lparr>Default_headers := hs\<rparr>))
      | _ \<Rightarrow> (Inl AssertionError, cls))"

section \<open>Response containers\<close>

record ResponseContainer =
  status_code :: int
  headers :: "string dict"
  body :: string

text \<open>
  Each constructor call builds a container whose headers are a copy of the defaults
  stored at the time of the call.
\<close>

definition RESP_OK :: "Default \<Rightarrow> ResponseContainer" where
  "RESP_OK cls = \<lparr>status_code = 200, headers = headers_of cls, body = []\<rparr>"

definition RESP_ACCEPTED :: "Default \<Rightarrow> ResponseContainer" where
  "RESP_ACCEPTED cls = \<lparr>status_code = 202, headers = headers_of cls, body = []\<rparr>"

definition RESP_NO_CONTENT :: "Default \<Rightarrow> ResponseContainer" where
  "RESP_NO_CONTENT cls = \<lparr>status_code = 204, headers = headers_of cls, body = []\<rparr>"

definition RESP_BAD_REQUEST :: "Default \<Rightarrow> ResponseContainer" where
  "RESP_BAD_REQUEST cls = \<lparr>status_code = 400, headers = headers_of cls, body = []\<rparr>"

definition RESP_NOT_FOUND :: "Default \<Rightarrow> ResponseContainer" where
  "RESP_NOT_FOUND cls = \<lparr>status_code = 404, headers = headers_of cls, body = []\<rparr>"

definition RESP_BAD_METHOD :: "Default \<Rightarrow> ResponseContainer" where
  "RESP_BAD_METHOD cls = \<lparr>status_code = 405, headers = headers_of cls, body = []\<rparr>"

section \<open>Requests and the request handler's state\<close>

text \<open>
  A request as the HTTP library hands it over: the method, the protocol version of the
  request line (\<open>HTTP/0.9\<close> for a request line of two words, which the library accepts
  for \<open>GET\<close> only), the request headers in the order received, the stream positioned
  at the body, and the two results of the URL library on the request target
  (\<open>urlparse(self.path).path\<close> and \<open>parse_qs(urlparse(self.path).query)\<close>).
  \<open>_init_response\<close> adds the query mapping, the primary path and the request payload.
\<close>

record request =
  command :: string
  request_version :: string
  req_headers :: "(string \<times> string) list"
  rfile :: rfile
  parsed_path :: string
  parsed_query :: "string list dict"

record req_handler = request +
  query :: "string list dict"
  primary_path :: string
  req_payload :: string

text \<open>
  Library behaviour the handler depends on: \<open>gzip.decompress\<close>, the table
  \<open>http.client.responses\<close> of reason phrases, and the date string of the moment.
\<close>

record lib =
  gzip_decompress :: "string \<Rightarrow> error + string"
  http_responses :: "int \<Rightarrow> string option"
  date_time_string :: string

text \<open>
  \<open>self.headers[name]\<close>: the value of the first header whose name equals \<open>name\<close>
  without regard to case, \<open>None\<close> when there is none. \<open>name in self.headers\<close> is the
  same comparison.
\<close>

definition headers_getitem :: "(string \<times> string) list \<Rightarrow> string \<Rightarrow> string option" where
  "headers_getitem hs name = map_of (map (\<lambda>(k, v). (lower k, v)) hs) (lower name)"

definition COMPRESSION_SCHEMES :: "string list" where
  "COMPRESSION_SCHEMES = [''gzip'', ''x-gzip'', ''compress'', ''deflate'', ''br'']"

text \<open>
  First pass over the header names: is there a \<open>Content-Length\<close> that \<open>int\<close>
  accepts. (\<open>int(None)\<close> would be a \<open>TypeError\<close>; a name taken from the headers
  always has a value.)
\<close>

fun has_content_len_loop :: "(string \<times> string) list \<Rightarrow> string list \<Rightarrow> bool \<Rightarrow> error + bool" where
  "has_content_len_loop hs [] has_content_len_hdr = Inr has_content_len_hdr"
| "has_content_len_loop hs (hdr # rest) has_content_len_hdr =
     (if lower hdr = ''content-length'' then
        (case headers_getitem hs hdr of
           None \<Rightarrow> Inl TypeError
         | Some v \<Rightarrow>
             (case int_of_str v of
                Some _ \<Rightarrow> has_content_len_loop hs rest True
              | None \<Rightarrow> has_content_len_loop hs rest has_content_len_hdr))
      else has_content_len_loop hs rest has_content_len_hdr)"

text \<open>Second pass: \<open>content_len\<close>, \<open>compression\<close> and \<open>chunked\<close>.\<close>

fun scan_headers ::
  "(string \<times> string) list \<Rightarrow> string list \<Rightarrow> int \<times> string option \<times> bool
   \<Rightarrow> error + (int \<times> string option \<times> bool)" where
  "scan_headers hs [] st = Inr st"
| "scan_headers hs (hdr # rest) (content_len, compression, chunked) =
     (if lower hdr = ''content-length'' then
        (case headers_getitem hs hdr of
           None \<Rightarrow> Inl TypeError
         | Some v \<Rightarrow>
             (case int_of_str v of
                Some n \<Rightarrow> scan_headers hs rest (n, compression, chunked)
              | None \<Rightarrow> scan_headers hs rest (content_len, compression, chunked)))
      else if lower hdr = ''content-encoding'' then
        (case headers_getitem hs hdr of
           None \<Rightarrow> Inl TypeError
         | Some v \<Rightarrow>
             if \<exists>cs \<in> set COMPRESSION_SCHEMES. str_in cs v
             then scan_headers hs rest (content_len, Some v, chunked)
             else scan_headers hs rest (content_len, compression, chunked))
      else if lower hdr = ''transfer-encoding'' then
        (case headers_getitem hs hdr of
           None \<Rightarrow> Inl TypeError
         | Some v \<Rightarrow>
             if str_in ''chunked'' v
             then scan_headers hs rest (content_len, compression, True)
             else scan_headers hs rest (content_len, compression, chunked))
      else scan_headers hs rest (content_len, compression, chunked))"

text \<open>Every read and every non-empty line shortens the stream.\<close>

lemma rfile_read_total:
  "length (fst (rfile_read n rf)) + length (buf (snd (rfile_read n rf))) = length (buf rf)"
  by (auto simp: rfile_read_def Let_def min_def)

lemma rfile_read_shrinks: "length (buf (snd (rfile_read n rf))) \<le> length (buf rf)"
  by (simp add: rfile_read_def Let_def)

lemma rfile_readline_shrinks:
  "fst (rfile_readline rf) \<noteq> [] \<Longrightarrow> length (buf (snd (rfile_readline rf))) < length (buf rf)"
proof (cases "dropWhile (\<lambda>c. c \<noteq> LF) (buf rf)")
  case Nil
  assume "fst (rfile_readline rf) \<noteq> []"
  then show ?thesis unfolding rfile_readline_def Nil by simp
next
  case (Cons c rest)
  have "length (dropWhile (\<lambda>c. c \<noteq> LF) (buf rf)) \<le> length (buf rf)"
    by (rule length_dropWhile_le)
  then show ?thesis unfolding rfile_readline_def Cons by simp
qed

lemma int_of_bytes16_nonempty: "int_of_bytes16 (strip s) = Some n \<Longrightarrow> s \<noteq> []"
  by (auto simp: int_of_bytes16_def py_long_from_string_def strip_def skip_prefix_def)

text \<open>
  The loop that reads a body of a declared length. \<open>recv_data\<close> is the result of the
  read before the loop test; the loop ends at the first empty read.
\<close>

function read_content_loop :: "rfile \<Rightarrow> string \<Rightarrow> int \<Rightarrow> string \<Rightarrow> string \<times> rfile" where
  "read_content_loop rf payload content_len recv_data =
     (if recv_data \<noteq> [] then
        read_content_loop (snd (rfile_read (content_len - int (length recv_data)) rf))
          (payload @ recv_data)
          (content_len - int (length recv_data))
          (fst (rfile_read (content_len - int (length recv_data)) rf))
      else (payload, rf))"
  by pat_completeness auto
termination
proof (relation "measure (\<lambda>(rf, payload, content_len, recv_data). length (buf rf) + length recv_data)")
  show "wf (measure (\<lambda>(rf, payload, content_len, recv_data). length (buf rf) + length recv_data))"
    by simp
next
  fix rf :: rfile and payload :: string and content_len :: int and recv_data :: string
  assume "recv_data \<noteq> []"
  then show "((snd (rfile_read (content_len - int (length recv_data)) rf), payload @ recv_data,
       content_len - int (length recv_data),
       fst (rfile_read (content_len - int (length recv_data)) rf)),
      rf, payload, content_len, recv_data)
    \<in> measure (\<lambda>(rf, payload, content_len, recv_data). length (buf rf) + length recv_data)"
    using rfile_read_total [of "content_len - int (length recv_data)" rf]
    by (cases recv_data) simp_all
qed

declare read_content_loop.simps [simp del]

text \<open>
  The loop that reads a chunked body: a size line in hexadecimal, that many bytes, two
  more bytes, until a size of zero. A size line that \<open>int\<close> refuses raises
  \<open>ValueError\<close>; at the end of the stream the size line is empty.
\<close>

lemma read_chunks_measure:
  assumes "int_of_bytes16 (strip (fst (rfile_readline rf))) = Some n"
  shows "length (buf (snd (rfile_read 2 (snd (rfile_read n (snd (rfile_readline rf)))))))
           < length (buf rf)"
proof -
  from assms have "fst (rfile_readline rf) \<noteq> []" by (rule int_of_bytes16_nonempty)
  then have "length (buf (snd (rfile_readline rf))) < length (buf rf)"
    by (rule rfile_readline_shrinks)
  moreover have "length (buf (snd (rfile_read n (snd (rfile_readline rf)))))
      \<le> length (buf (snd (rfile_readline rf)))"
    by (rule rfile_read_shrinks)
  moreover have "length (buf (snd (rfile_read 2 (snd (rfile_read n (snd (rfile_readline rf)))))))
      \<le> length (buf (snd (rfile_read n (snd (rfile_readline rf)))))"
    by (rule rfile_read_shrinks)
  ultimately show ?thesis by linarith
qed

function read_chunks :: "rfile \<Rightarrow> string \<Rightarrow> error + (string \<times> rfile)" where
  "read_chunks rf payload =
     (case int_of_bytes16 (strip (fst (rfile_readline rf))) of
        None \<Rightarrow> Inl ValueError
      | Some chunk_sz \<Rightarrow>
          (let rf1 = snd (rfile_readline rf);
               payload' = payload @ fst (rfile_read chunk_sz rf1);
               rf2 = snd (rfile_read chunk_sz rf1);
               rf3 = snd (rfile_read 2 rf2)
           in if chunk_sz = 0 then Inr (payload', rf3) else read_chunks rf3 payload'))"
  by pat_completeness auto
termination
  by (relation "measure (\<lambda>(rf, payload). length (buf rf))")
     (simp_all add: read_chunks_measure)

declare read_chunks.simps [simp del]

text \<open>
  \<open>_init_response\<close>. The result is the handler's state after the call, or the error
  that left it.
\<close>

definition init_response :: "lib \<Rightarrow> request \<Rightarrow> error + req_handler" where
  "init_response L req =
     (case has_content_len_loop (req_headers req) (map fst (req_headers req)) False of
        Inl e \<Rightarrow> Inl e
      | Inr has_content_len_hdr \<Rightarrow>
          if command req \<in> set [''POST'', ''PUT''] \<or> has_content_len_hdr then
            (case scan_headers (req_headers req) (map fst (req_headers req)) (0, None, False) of
               Inl e \<Rightarrow> Inl e
             | Inr (content_len, compression, chunked) \<Rightarrow>
                 (case (if content_len > 0 then
                          Inr (read_content_loop (snd (rfile_read content_len (rfile req))) []
                                 content_len (fst (rfile_read content_len (rfile req))))
                        else if chunked then read_chunks (rfile req) []
                        else Inr ([], rfile req)) of
                    Inl e \<Rightarrow> Inl e
                  | Inr (payload, rf) \<Rightarrow>
                      (case (case compression of
                               None \<Rightarrow> Inr payload
                             | Some c \<Rightarrow>
                                 if str_in ''gzip'' c then gzip_decompress L payload
                                 else Inr payload) of
                         Inl e \<Rightarrow> Inl e
                       | Inr p \<Rightarrow>
                           Inr (request.extend (req\<lparr>rfile := rf\<rparr>)
                                  \<lparr>query = parsed_query req, primary_path = parsed_path req,
                                     req_payload = p\<rparr>))))
          else
            Inr (request.extend req
                   \<lparr>query = parsed_query req, primary_path = parsed_path req, req_payload = []\<rparr>))"

section \<open>Path handlers and the route table\<close>

text \<open>
  A handler class as it stands once \<open>__init_subclass__\<close> has filled in its defaults
  and checked their types. \<open>handle\<close> is what constructing the class on the request
  handler and a fresh \<open>RESP_OK()\<close> and calling \<open>handle()\<close> does (template read,
  the subclass's \<open>_handle\<close>, body encoding): an error raised on the way, or the
  returned container, \<open>None\<close> when the call returns \<open>None\<close>.
\<close>

record handler_class =
  cls_name :: string
  DISABLE_HEAD_REQUESTS :: bool
  DISABLE_OPTIONS_REQUESTS :: bool
  RESPONSE_ENCODING :: string
  TEMPLATE :: pyval
  PARSE_TEMPLATE :: bool
  TEMPLATE_ENCODING :: string
  handle :: "req_handler \<Rightarrow> ResponseContainer \<Rightarrow> error + ResponseContainer option"

text \<open>
  A table entry is a handler class or Python's \<open>None\<close> (the entry of the default
  path). \<open>PATHS\<close> and \<open>REGEX_PATHS\<close> map a method name to its table; \<open>stdout\<close>
  collects the lines printed while classes register.
\<close>

type_synonym path_table = "handler_class option dict"

record WebPathMap =
  PATHS :: "path_table dict"
  REGEX_PATHS :: "path_table dict"
  stdout :: "string list"

definition WebPathMap_initial :: WebPathMap where
  "WebPathMap_initial =
     \<lparr>PATHS =
        [(''CONNECT'', [(''/'', None)]),
         (''DELETE'', [(''/'', None)]),
         (''GET'', [(''/'', None)]),
         (''PATCH'', [(''/'', None)]),
         (''POST'', [(''/'', None)]),
         (''PUT'', [(''/'', None)])],
      REGEX_PATHS =
        [(''CONNECT'', []),
         (''DELETE'', []),
         (''GET'', []),
         (''PATCH'', []),
         (''POST'', []),
         (''PUT'', [])],
      stdout = []\<rparr>"

text \<open>\<open>lookup\<close>: the entry bound to a method and a path, if the path is a key.\<close>

definition lookup :: "path_table dict \<Rightarrow> string \<Rightarrow> string \<Rightarrow> handler_class option option" where
  "lookup P method path = (case map_of P method of None \<Rightarrow> None | Some t \<Rightarrow> map_of t path)"

subsection \<open>Registration (\<open>__init_subclass__\<close>)\<close>

text \<open>
  The attributes a class statement may set; \<open>None\<close> is an attribute the class does not
  have. \<open>decl_handle\<close> is the behaviour of its \<open>handle()\<close>.
\<close>

record class_decl =
  decl_name :: string
  decl_METHODS :: "string list option"
  decl_METHOD :: "pyval option"
  decl_PATHS :: "string list option"
  decl_REGEX_PATHS :: "string list option"
  decl_DISABLE_HEAD_REQUESTS :: "pyval option"
  decl_DISABLE_OPTIONS_REQUESTS :: "pyval option"
  decl_RESPONSE_ENCODING :: "pyval option"
  decl_TEMPLATE :: "pyval option"
  decl_PARSE_TEMPLATE :: "pyval option"
  decl_TEMPLATE_ENCODING :: "pyval option"
  decl_handle :: "req_handler \<Rightarrow> ResponseContainer \<Rightarrow> error + ResponseContainer option"

definition attr_or :: "pyval option \<Rightarrow> pyval \<Rightarrow> pyval" where
  "attr_or a d = (case a of None \<Rightarrow> d | Some v \<Rightarrow> v)"

text \<open>
  The inner loops: each path of the class is bound to the class in the method's table,
  with a warning line when the path was a key already.
\<close>

fun register_paths ::
  "string \<Rightarrow> string \<Rightarrow> handler_class \<Rightarrow> string list \<Rightarrow> path_table \<times> string list
   \<Rightarrow> path_table \<times> string list" where
  "register_paths method suffix cls [] (t, out) = (t, out)"
| "register_paths method suffix cls (path # rest) (t, out) =
     register_paths method suffix cls rest
       (AList.update path (Some cls) t,
        if map_of t path \<noteq> None
        then out @ [''[Warning] Overwriting '' @ method @ '' '' @ path @ suffix]
        else out)"

text \<open>
  The loop over the methods of the class. A method that is no key of \<open>PATHS\<close> is meant
  to raise \<open>KeyError\<close>; its message reads \<open>cls.METHOD\<close>, which raises
  \<open>AttributeError\<close> first when the class has no such attribute. Bindings made for
  earlier methods stay.
\<close>

fun register_methods ::
  "handler_class \<Rightarrow> pyval option \<Rightarrow> string list \<Rightarrow> string list \<Rightarrow> string list \<Rightarrow> WebPathMap
   \<Rightarrow> (error + unit) \<times> WebPathMap" where
  "register_methods cls meth_attr paths regex_paths [] W = (Inr (), W)"
| "register_methods cls meth_attr paths regex_paths (method # rest) W =
     (case map_of (PATHS W) method of
        None \<Rightarrow> (case meth_attr of None \<Rightarrow> (Inl AttributeError, W) | Some _ \<Rightarrow> (Inl KeyError, W))
      | Some t \<Rightarrow>
          (let (t', out') = register_paths method [] cls paths (t, stdout W);
               W1 = W\<lparr>PATHS := AList.update method t' (PATHS W), stdout := out'\<rparr>
           in if regex_paths = [] then register_methods cls meth_attr paths regex_paths rest W1
              else (case map_of (REGEX_PATHS W1) method of
                      None \<Rightarrow> (Inl KeyError, W1)
                    | Some rt \<Rightarrow>
                        (let (rt', out'') =
                               register_paths method '' (RegEx)'' cls regex_paths (rt, stdout W1);
                             W2 = W1\<lparr>REGEX_PATHS := AList.update method rt' (REGEX_PATHS W1),
                                     stdout := out''\<rparr>
                         in register_methods cls meth_attr paths regex_paths rest W2))))"

text \<open>
  The class attributes after the defaulting step of \<open>__init_subclass__\<close>
  (\<open>if not hasattr(cls, ...)\<close>), and the class object they make up.
\<close>

definition is_bool :: "pyval \<Rightarrow> bool" where
  "is_bool v = (case v of PBool _ \<Rightarrow> True | _ \<Rightarrow> False)"

definition is_str :: "pyval \<Rightarrow> bool" where
  "is_str v = (case v of PStr _ \<Rightarrow> True | _ \<Rightarrow> False)"

definition str_of :: "pyval \<Rightarrow> string" where
  "str_of v = (case v of PStr s \<Rightarrow> s | _ \<Rightarrow> [])"

definition cls_PATHS :: "class_decl \<Rightarrow> string list" where
  "cls_PATHS d = (case decl_PATHS d of None \<Rightarrow> [] | Some ps \<Rightarrow> ps)"

definition cls_REGEX_PATHS :: "class_decl \<Rightarrow> string list" where
  "cls_REGEX_PATHS d = (case decl_REGEX_PATHS d of None \<Rightarrow> [] | Some ps \<Rightarrow> ps)"

definition cls_DISABLE_HEAD_REQUESTS :: "class_decl \<Rightarrow> pyval" where
  "cls_DISABLE_HEAD_REQUESTS d = attr_or (decl_DISABLE_HEAD_REQUESTS d) (PBool False)"

definition cls_DISABLE_OPTIONS_REQUESTS :: "class_decl \<Rightarrow> pyval" where
  "cls_DISABLE_OPTIONS_REQUESTS d = attr_or (decl_DISABLE_OPTIONS_REQUESTS d) (PBool False)"

definition cls_RESPONSE_ENCODING :: "class_decl \<Rightarrow> pyval" where
  "cls_RESPONSE_ENCODING d = attr_or (decl_RESPONSE_ENCODING d) (PStr ''utf8'')"

definition cls_TEMPLATE :: "class_decl \<Rightarrow> pyval" where
  "cls_TEMPLATE d = attr_or (decl_TEMPLATE d) PNone"

definition cls_PARSE_TEMPLATE :: "class_decl \<Rightarrow> pyval" where
  "cls_PARSE_TEMPLATE d = attr_or (decl_PARSE_TEMPLATE d) (PBool False)"

definition cls_TEMPLATE_ENCODING :: "class_decl \<Rightarrow> pyval" where
  "cls_TEMPLATE_ENCODING d = attr_or (decl_TEMPLATE_ENCODING d) (cls_RESPONSE_ENCODING d)"

definition class_of :: "class_decl \<Rightarrow> handler_class" where
  "class_of d =
     \<lparr>cls_name = decl_name d,
      DISABLE_HEAD_REQUESTS = (cls_DISABLE_HEAD_REQUESTS d = PBool True),
      DISABLE_OPTIONS_REQUESTS = (cls_DISABLE_OPTIONS_REQUESTS d = PBool True),
      RESPONSE_ENCODING = str_of (cls_RESPONSE_ENCODING d),
      TEMPLATE = cls_TEMPLATE d,
      PARSE_TEMPLATE = (cls_PARSE_TEMPLATE d = PBool True),
      TEMPLATE_ENCODING = str_of (cls_TEMPLATE_ENCODING d),
      handle = decl_handle d\<rparr>"

text \<open>
  \<open>__init_subclass__\<close>: the checks on methods and paths, the type assertions on the
  defaulted attributes, then the registration loop. The result is the error raised or
  success, with the route table afterwards.
\<close>

definition init_subclass :: "WebPathMap \<Rightarrow> class_decl \<Rightarrow> (error + unit) \<times> WebPathMap" where
  "init_subclass W d =
     (case decl_METHODS d of
        None \<Rightarrow> (Inl AttributeError, W)
      | Some methods \<Rightarrow>
          if length methods = 0 then (Inl KeyError, W)
          else if length (cls_PATHS d) + length (cls_REGEX_PATHS d) = 0 then (Inl KeyError, W)
          else if \<not> is_bool (cls_DISABLE_HEAD_REQUESTS d) then (Inl AssertionError, W)
          else if \<not> is_bool (cls_DISABLE_OPTIONS_REQUESTS d) then (Inl AssertionError, W)
          else if \<not> is_str (cls_RESPONSE_ENCODING d) then (Inl AssertionError, W)
          else if \<not> is_bool (cls_PARSE_TEMPLATE d) then (Inl AssertionError, W)
          else if \<not> is_str (cls_TEMPLATE_ENCODING d) then (Inl AssertionError, W)
          else register_methods (class_of d) (decl_METHOD d) (cls_PATHS d) (cls_REGEX_PATHS d)
                 methods W)"

text \<open>
  A class statement that passes every check of \<open>__init_subclass__\<close> on a given route
  table: methods and paths are there, the defaulted attributes have their types, and
  every method is a key of the tables.
\<close>

definition registrable :: "WebPathMap \<Rightarrow> class_decl \<Rightarrow> bool" where
  "registrable W d =
     (case decl_METHODS d of
        None \<Rightarrow> False
      | Some methods \<Rightarrow>
          methods \<noteq> [] \<and> cls_PATHS d @ cls_REGEX_PATHS d \<noteq> []
          \<and> is_bool (cls_DISABLE_HEAD_REQUESTS d) \<and> is_bool (cls_DISABLE_OPTIONS_REQUESTS d)
          \<and> is_str (cls_RESPONSE_ENCODING d) \<and> is_bool (cls_PARSE_TEMPLATE d)
          \<and> is_str (cls_TEMPLATE_ENCODING d)
          \<and> list_all (\<lambda>m. map_of (PATHS W) m \<noteq> None) methods
          \<and> (cls_REGEX_PATHS d = [] \<or> list_all (\<lambda>m. map_of (REGEX_PATHS W) m \<noteq> None) methods))"

definition cls_METHODS :: "class_decl \<Rightarrow> string list" where
  "cls_METHODS d = (case decl_METHODS d of None \<Rightarrow> [] | Some ms \<Rightarrow> ms)"

definition overwrite_warning :: "string \<Rightarrow> string \<Rightarrow> string" where
  "overwrite_warning method path = ''[Warning] Overwriting '' @ method @ '' '' @ path"

section \<open>The dispatcher\<close>

text \<open>
  The test on the disable flags. For a \<open>HEAD\<close> request it reads
  \<open>path_handler.DISABLE_HEAD_REQUESTS\<close>, for an \<open>OPTIONS\<close> request
  \<open>path_handler.DISABLE_OPTIONS_REQUESTS\<close>; reading an attribute of \<open>None\<close> raises
  \<open>AttributeError\<close>. For any other method no attribute is read.
\<close>

definition disabled :: "string \<Rightarrow> handler_class option \<Rightarrow> error + bool" where
  "disabled cmd path_handler =
     (if cmd = ''HEAD'' then
        (case path_handler of
           None \<Rightarrow> Inl AttributeError
         | Some h \<Rightarrow> Inr (DISABLE_HEAD_REQUESTS h))
      else if cmd = ''OPTIONS'' then
        (case path_handler of
           None \<Rightarrow> Inl AttributeError
         | Some h \<Rightarrow> Inr (DISABLE_OPTIONS_REQUESTS h))
      else Inr False)"

text \<open>
  The \<open>Allow\<close> value as the inner loop builds it: \<open>method + ', '\<close> for each method
  whose table has the path, in the order of \<open>PATHS\<close>; then the last two characters
  are cut off.
\<close>

fun allow_loop :: "path_table dict \<Rightarrow> string \<Rightarrow> string \<Rightarrow> string" where
  "allow_loop [] path acc = acc"
| "allow_loop ((method, t) # rest) path acc =
     allow_loop rest path (if map_of t path \<noteq> None then acc @ method @ '', '' else acc)"

definition allow_header :: "path_table dict \<Rightarrow> string \<Rightarrow> string" where
  "allow_header P path = (let s = allow_loop P path [] in take (length s - 2) s)"

text \<open>
  The end of the matching branch: a \<open>None\<close> entry is answered with a bare
  \<open>RESP_OK()\<close>; otherwise the class is constructed and \<open>handle()\<close> called, and a
  \<open>None\<close> result fails the assertion.
\<close>

definition serve_entry :: "Default \<Rightarrow> req_handler \<Rightarrow> handler_class option \<Rightarrow> error + ResponseContainer" where
  "serve_entry cls rh path_handler =
     (case path_handler of
        None \<Rightarrow> Inr (RESP_OK cls)
      | Some h \<Rightarrow>
          (case handle h rh (RESP_OK cls) of
             Inl e \<Rightarrow> Inl e
           | Inr None \<Rightarrow> Inl AssertionError
           | Inr (Some r) \<Rightarrow> Inr r))"

text \<open>The \<open>OPTIONS\<close> answer: 204 with the \<open>Allow\<close> header set.\<close>

definition options_response :: "Default \<Rightarrow> path_table dict \<Rightarrow> string \<Rightarrow> ResponseContainer" where
  "options_response cls P path =
     (RESP_NO_CONTENT cls)
       \<lparr>headers := AList.update ''Allow'' (allow_header P path) (headers (RESP_NO_CONTENT cls))\<rparr>"

text \<open>
  The loop of \<open>_build_and_send_response\<close> over the methods of \<open>PATHS\<close>; \<open>pending\<close>
  is \<open>self.pending_resp\<close>. A table that has the path under another method than the
  request's sets the pending response to 405 and the loop goes on; a match ends it.
\<close>

fun dispatch_loop ::
  "Default \<Rightarrow> path_table dict \<Rightarrow> req_handler \<Rightarrow> path_table dict \<Rightarrow> ResponseContainer option
   \<Rightarrow> error + ResponseContainer option" where
  "dispatch_loop cls P rh [] pending = Inr pending"
| "dispatch_loop cls P rh ((m, t) # rest) pending =
     (case map_of t (primary_path rh) of
        None \<Rightarrow> dispatch_loop cls P rh rest pending
      | Some path_handler \<Rightarrow>
          if m = command rh \<or> command rh \<in> set [''HEAD'', ''OPTIONS''] then
            (case disabled (command rh) path_handler of
               Inl e \<Rightarrow> Inl e
             | Inr True \<Rightarrow> Inr (Some (RESP_BAD_METHOD cls))
             | Inr False \<Rightarrow>
                 if command rh = ''OPTIONS'' then
                   Inr (Some (options_response cls P (primary_path rh)))
                 else
                   (case serve_entry cls rh path_handler of
                      Inl e \<Rightarrow> Inl e
                    | Inr r \<Rightarrow> Inr (Some r)))
          else dispatch_loop cls P rh rest (Some (RESP_BAD_METHOD cls)))"

text \<open>The response the dispatcher settles on: 404 when the loop left none pending.\<close>

definition dispatch :: "Default \<Rightarrow> path_table dict \<Rightarrow> req_handler \<Rightarrow> error + ResponseContainer" where
  "dispatch cls P rh =
     (case dispatch_loop cls P rh P None of
        Inl e \<Rightarrow> Inl e
      | Inr None \<Rightarrow> Inr (RESP_NOT_FOUND cls)
      | Inr (Some r) \<Rightarrow> Inr r)"

section \<open>Lookups offered to handlers\<close>

definition get_request_header :: "req_handler \<Rightarrow> string \<Rightarrow> pyval \<Rightarrow> pyval" where
  "get_request_header rh key default_val =
     (case headers_getitem (req_headers rh) key of
        Some v \<Rightarrow> PStr v
      | None \<Rightarrow> default_val)"

definition get_url_query_param :: "req_handler \<Rightarrow> string \<Rightarrow> pyval \<Rightarrow> bool \<Rightarrow> pyval" where
  "get_url_query_param rh key default_val case_sensitive =
     (if case_sensitive \<and> map_of (query rh) key \<noteq> None then
        (case map_of (query rh) key of
           Some vs \<Rightarrow> PList (map PStr vs)
         | None \<Rightarrow> PList [default_val])
      else if \<not> case_sensitive then
        (case find (\<lambda>(k, vs). lower k = lower key) (query rh) of
           Some (k, vs) \<Rightarrow> PList (map PStr vs)
         | None \<Rightarrow> PList [default_val])
      else PList [default_val])"

section \<open>Sending the response\<close>

text \<open>
  What reaches the connection. The library collects the status line and the header
  lines in a buffer that \<open>end_headers\<close> writes out, followed by the one
  \<open>wfile.write\<close> of the body. \<open>w_status\<close> is the status code of the status line,
  \<open>None\<close> when no status line is written; \<open>w_headers\<close> are the header lines in
  order; \<open>w_body\<close> is the argument of the body write, \<open>None\<close> when the body is
  not written.
\<close>

record wire =
  w_status :: "int option"
  w_headers :: "(string \<times> string) list"
  w_body :: "string option"

text \<open>
  The library's \<open>send_response_only\<close> and \<open>send_header\<close>: the status line and a
  header line go to the buffer unless the request version is \<open>HTTP/0.9\<close>, for which
  the library writes neither (and \<open>end_headers\<close> writes nothing).
\<close>

definition send_response_only :: "req_handler \<Rightarrow> int \<Rightarrow> int option" where
  "send_response_only rh code = (if request_version rh \<noteq> ''HTTP/0.9'' then Some code else None)"

definition super_send_header :: "req_handler \<Rightarrow> string \<times> string \<Rightarrow> (string \<times> string) list" where
  "super_send_header rh kv = (if request_version rh \<noteq> ''HTTP/0.9'' then [kv] else [])"

text \<open>
  The overridden \<open>send_header\<close>: a header named \<open>Server\<close> (in any case) is dropped
  when the banner is \<open>None\<close>; any other goes to the library's \<open>send_header\<close>.
\<close>

definition send_header :: "Default \<Rightarrow> req_handler \<Rightarrow> string \<times> string \<Rightarrow> (string \<times> string) list" where
  "send_header cls rh kv =
     (if lower (fst kv) = ''server'' \<and> banner cls = None then [] else super_send_header rh kv)"

text \<open>
  The library's \<open>send_response\<close>: the status line, then a \<open>Server\<close> header with the
  banner and a \<open>Date\<close> header, both through \<open>send_header\<close>.
\<close>

definition send_response ::
  "lib \<Rightarrow> Default \<Rightarrow> req_handler \<Rightarrow> int \<Rightarrow> int option \<times> (string \<times> string) list" where
  "send_response L cls rh code =
     (send_response_only rh code,
      send_header cls rh (''Server'', (case banner cls of None \<Rightarrow> [] | Some b \<Rightarrow> b))
      @ send_header cls rh (''Date'', date_time_string L))"

text \<open>
  \<open>_send_pending_response\<close>. The log line with the reason phrase looks the status
  code up in \<open>http.client.responses\<close> and raises \<open>KeyError\<close> for a code that is not
  there, before the buffer is written out: nothing reaches the connection then.
\<close>

definition send_pending_response ::
  "lib \<Rightarrow> Default \<Rightarrow> req_handler \<Rightarrow> ResponseContainer \<Rightarrow> error + wire" where
  "send_pending_response L cls rh pending_resp =
     (let (status, first) = send_response L cls rh (status_code pending_resp);
          hdrs = (if length (body pending_resp) > 0
                  then AList.update ''Content-Length'' (str_nat (length (body pending_resp)))
                         (headers pending_resp)
                  else headers pending_resp)
      in case http_responses L (status_code pending_resp) of
           None \<Rightarrow> Inl KeyError
         | Some _ \<Rightarrow>
             Inr \<lparr>w_status = status,
                  w_headers = first @ concat (map (send_header cls rh) hdrs),
                  w_body = (if command rh \<notin> set [''HEAD'', ''OPTIONS'']
                               \<and> length (body pending_resp) > 0
                            then Some (body pending_resp) else None)\<rparr>)"

text \<open>\<open>_build_and_send_response\<close>, which every \<open>do_\<close> method calls.\<close>

definition build_and_send_response ::
  "lib \<Rightarrow> Default \<Rightarrow> WebPathMap \<Rightarrow> request \<Rightarrow> error + wire" where
  "build_and_send_response L cls W req =
     (case init_response L req of
        Inl e \<Rightarrow> Inl e
      | Inr rh \<Rightarrow>
          (case dispatch cls (PATHS W) rh of
             Inl e \<Rightarrow> Inl e
           | Inr pending_resp \<Rightarrow> send_pending_response L cls rh pending_resp))"

section \<open>Notions used to state the properties\<close>

text \<open>
  The first table, in the order of \<open>PATHS\<close>, that has the path as a key; the methods
  whose table has the path, in that order; and a list of names joined by a comma and a
  space, as the specification words the \<open>Allow\<close> value.
\<close>

definition first_table :: "path_table dict \<Rightarrow> string \<Rightarrow> (string \<times> path_table) option" where
  "first_table P path = find (\<lambda>(m, t). map_of t path \<noteq> None) P"

definition methods_with :: "path_table dict \<Rightarrow> string \<Rightarrow> string list" where
  "methods_with P path = map fst (filter (\<lambda>(m, t). map_of t path \<noteq> None) P)"

fun spec_comma_join :: "string list \<Rightarrow> string" where
  "spec_comma_join [] = []"
| "spec_comma_join [m] = m"
| "spec_comma_join (m # m' # ms) = m @ '', '' @ spec_comma_join (m' # ms)"







text \<open>
  The warning line for a regular-expression path, and the warning lines a registration
  is to print on a given route table: for each method of the class in turn, one line for
  each of its paths that is a key of the method's table, then one for each of its
  regular-expression paths that is a key of the method's regular-expression table.
\<close>

definition regex_overwrite_warning :: "string \<Rightarrow> string \<Rightarrow> string" where
  "regex_overwrite_warning method path = overwrite_warning method path @ '' (RegEx)''"

definition expected_warnings ::
  "WebPathMap \<Rightarrow> string list \<Rightarrow> string list \<Rightarrow> string list \<Rightarrow> string list" where
  "expected_warnings W ms ps rs =
     concat (map (\<lambda>m. map (overwrite_warning m) (filter (\<lambda>p. lookup (PATHS W) m p \<noteq> None) ps)
                      @ map (regex_overwrite_warning m)
                          (filter (\<lambda>p. lookup (REGEX_PATHS W) m p \<noteq> None) rs)) ms)"
section \<open>The example endpoints\<close>

text \<open>
  Three of the classes of the endpoints module, with the process-wide configuration the
  module sets before them. Their \<open>handle\<close> sets a content type and a body on the copy
  of the response they were constructed with.
\<close>

definition Default_initial :: Default where
  "Default_initial = \<lparr>Default_headers = [], banner = Some ''SeanP''\<rparr>"

definition endpoints_Default :: Default where
  "endpoints_Default =
     snd (set_headers (Default_initial\<lparr>banner := Some ''Python Web Server by Sean Pesce''\<rparr>)
            (PDict [(PStr ''X-Example-Default-Header'', PStr ''SeanP''),
                    (PStr ''Connection'', PStr ''close'')]))"

definition hello_world :: "req_handler \<Rightarrow> ResponseContainer \<Rightarrow> error + ResponseContainer option" where
  "hello_world rh response =
     Inr (Some (response\<lparr>headers := AList.update ''Content-Type'' ''text/plain'' (headers response),
                          body := ''Hello world!''\<rparr>))"

definition echo_payload :: "req_handler \<Rightarrow> ResponseContainer \<Rightarrow> error + ResponseContainer option" where
  "echo_payload rh response =
     Inr (Some (response\<lparr>headers := AList.update ''Content-Type'' ''application/octet-stream''
                                      (headers response),
                          body := req_payload rh\<rparr>))"

definition ExampleEndpoint01 :: class_decl where
  "ExampleEndpoint01 =
     \<lparr>decl_name = ''ExampleEndpoint01'',
      decl_METHODS = Some [''GET''],
      decl_METHOD = None,
      decl_PATHS = Some [''/example01''],
      decl_REGEX_PATHS = None,
      decl_DISABLE_HEAD_REQUESTS = None,
      decl_DISABLE_OPTIONS_REQUESTS = None,
      decl_RESPONSE_ENCODING = None,
      decl_TEMPLATE = None,
      decl_PARSE_TEMPLATE = None,
      decl_TEMPLATE_ENCODING = None,
      decl_handle = hello_world\<rparr>"

definition ExampleEndpoint02 :: class_decl where
  "ExampleEndpoint02 =
     \<lparr>decl_name = ''ExampleEndpoint02'',
      decl_METHODS = Some [''POST'', ''PUT''],
      decl_METHOD = None,
      decl_PATHS = Some [''/example2'', ''/example02''],
      decl_REGEX_PATHS = None,
      decl_DISABLE_HEAD_REQUESTS = None,
      decl_DISABLE_OPTIONS_REQUESTS = None,
      decl_RESPONSE_ENCODING = None,
      decl_TEMPLATE = None,
      decl_PARSE_TEMPLATE = None,
      decl_TEMPLATE_ENCODING = None,
      decl_handle = echo_payload\<rparr>"

definition ExampleEndpoint06 :: class_decl where
  "ExampleEndpoint06 =
     \<lparr>decl_name = ''ExampleEndpoint06'',
      decl_METHODS = Some [''GET''],
      decl_METHOD = None,
      decl_PATHS = Some [''/example06''],
      decl_REGEX_PATHS = None,
      decl_DISABLE_HEAD_REQUESTS = Some (PBool True),
      decl_DISABLE_OPTIONS_REQUESTS = Some (PBool True),
      decl_RESPONSE_ENCODING = None,
      decl_TEMPLATE = None,
      decl_PARSE_TEMPLATE = None,
      decl_TEMPLATE_ENCODING = None,
      decl_handle = hello_world\<rparr>"

definition endpoints_WebPathMap :: WebPathMap where
  "endpoints_WebPathMap =
     snd (init_subclass
            (snd (init_subclass (snd (init_subclass WebPathMap_initial ExampleEndpoint01))
                    ExampleEndpoint02))
            ExampleEndpoint06)"

text \<open>
  A request handler state with the given method and path, of version \<open>HTTP/1.1\<close>, and
  nothing else.
\<close>

definition bare_request :: "string \<Rightarrow> string \<Rightarrow> req_handler" where
  "bare_request cmd path =
     \<lparr>command = cmd, request_version = ''HTTP/1.1'', req_headers = [],
      rfile = \<lparr>buf = [], short_reads = []\<rparr>, parsed_path = path, parsed_query = [],
      query = [], primary_path = path, req_payload = []\<rparr>"

text \<open>
  Library behaviour for the examples. \<open>gzip.decompress\<close> returns empty data for empty
  data and raises \<open>BadGzipFile\<close> for data that does not start with the magic bytes
  \<open>1f 8b\<close>; what it does with a gzip stream is the parameter \<open>members\<close>. The reason
  phrases are those of the status codes the framework itself produces.
\<close>

definition gzip_decompress_with :: "(string \<Rightarrow> error + string) \<Rightarrow> string \<Rightarrow> error + string" where
  "gzip_decompress_with members data =
     (if data = [] then Inr []
      else if take 2 data \<noteq> [CHR 0x1F, CHR 0x8B] then Inl BadGzipFile
      else members data)"

definition example_responses :: "int \<Rightarrow> string option" where
  "example_responses code =
     map_of [(200, ''OK''), (202, ''Accepted''), (204, ''No Content''), (400, ''Bad Request''),
             (404, ''Not Found''), (405, ''Method Not Allowed'')] code"

definition example_lib :: lib where
  "example_lib =
     \<lparr>gzip_decompress = gzip_decompress_with (\<lambda>data. Inl BadGzipFile),
      http_responses = example_responses,
      date_time_string = ''Thu, 01 Jan 1970 00:00:00 GMT''\<rparr>"

section \<open>Default headers: validation\<close>

lemma str_in_single: "str_in [c] s \<longleftrightarrow> c \<in> set s"
  by (induction s) auto

lemma set_headers_loop_bad_key:
  "(PStr name, v) \<in> set al \<Longrightarrow> c \<in> set bad_chars \<Longrightarrow> c \<in> set name
   \<Longrightarrow> set_headers_loop al = Inl AssertionError"
proof (induction al)
  case Nil
  then show ?case by simp
next
  case (Cons kv rest)
  obtain k w where kv: "kv = (k, w)" by (cases kv)
  show ?case
  proof (cases "(PStr name, v) = kv")
    case True
    with Cons.prems kv show ?thesis
      by (auto simp: str_in_single)
  next
    case False
    with Cons have "set_headers_loop rest = Inl AssertionError" by simp
    then show ?thesis
      by (simp add: kv split: pyval.splits)
  qed
qed

lemma set_headers_loop_error:
  "set_headers_loop al = Inl e \<Longrightarrow> e = AssertionError"
proof (induction al)
  case Nil
  then show ?case by simp
next
  case (Cons kv rest)
  obtain k w where kv: "kv = (k, w)" by (cases kv)
  from Cons show ?case
    by (auto simp: kv split: pyval.splits if_splits sum.splits)
qed

lemma set_headers_loop_values:
  "set_headers_loop al = Inr hs \<Longrightarrow> (k, v) \<in> set hs \<Longrightarrow> CR \<notin> set v \<and> LF \<notin> set v"
proof (induction al arbitrary: hs)
  case Nil
  then show ?case by simp
next
  case (Cons kv rest)
  obtain k' w where kv: "kv = (k', w)" by (cases kv)
  from Cons.prems(1) obtain header hv hs' where
    parts: "k' = PStr header" "w = PStr hv" "set_headers_loop rest = Inr hs'"
      "hs = (header, replace_char CR (CHR '' '') (replace_char LF (CHR '' '') hv)) # hs'"
    by (auto simp: kv split: pyval.splits if_splits sum.splits)
  show ?case
  proof (cases "(k, v) \<in> set hs'")
    case True
    with Cons.IH parts(3) show ?thesis by blast
  next
    case False
    with Cons.prems(2) parts(4)
    have "v = replace_char CR (CHR '' '') (replace_char LF (CHR '' '') hv)" by simp
    then show ?thesis
      by (auto simp: replace_char_def CR_def LF_def)
  qed
qed

text \<open>
  C8. Setting the default headers raises an assertion error for every dictionary in
  which some header name contains a space, colon, carriage return, line feed, tab,
  backspace or null character; whenever the call fails the stored defaults are the
  ones from before the call; and after an accepted call no stored header value contains
  a carriage return or a line feed.
\<close>

theorem set_headers_validates:
  "((PStr name, v) \<in> set al \<and> c \<in> set bad_chars \<and> c \<in> set name
      \<longrightarrow> set_headers cls (PDict al) = (Inl AssertionError, cls))
   \<and> (fst (set_headers cls h) = Inl e \<longrightarrow> snd (set_headers cls h) = cls)
   \<and> (fst (set_headers cls h) = Inr r \<and> (k, w) \<in> set (Default_headers (snd (set_headers cls h)))
      \<longrightarrow> CR \<notin> set w \<and> LF \<notin> set w)"
proof (intro conjI impI)
  assume "(PStr name, v) \<in> set al \<and> c \<in> set bad_chars \<and> c \<in> set name"
  then have "set_headers_loop al = Inl AssertionError"
    using set_headers_loop_bad_key by blast
  then show "set_headers cls (PDict al) = (Inl AssertionError, cls)"
    by (simp add: set_headers_def)
next
  assume "fst (set_headers cls h) = Inl e"
  then show "snd (set_headers cls h) = cls"
    by (auto simp: set_headers_def split: pyval.splits sum.splits)
next
  assume a: "fst (set_headers cls h) = Inr r \<and> (k, w) \<in> set (Default_headers (snd (set_headers cls h)))"
  then obtain al' where h: "h = PDict al'" and l: "set_headers_loop al' = Inr r"
    by (auto simp: set_headers_def split: pyval.splits sum.splits)
  with a have "(k, w) \<in> set r"
    by (simp add: set_headers_def)
  with l show "CR \<notin> set w" using set_headers_loop_values by blast
  from \<open>(k, w) \<in> set r\<close> l show "LF \<notin> set w" using set_headers_loop_values by blast
qed

theorem set_headers_validates_witness:
  "set_headers \<lparr>Default_headers = [(''Connection'', ''close'')], banner = Some ''SeanP''\<rparr>
       (PDict [(PStr ''X-Ok'', PStr ''1''), (PStr ''Bad Name'', PStr ''2'')])
     = (Inl AssertionError,
        \<lparr>Default_headers = [(''Connection'', ''close'')], banner = Some ''SeanP''\<rparr>)
   \<and> snd (set_headers \<lparr>Default_headers = [(''Connection'', ''close'')], banner = Some ''SeanP''\<rparr>
       (PDict [(PInt 1, PStr ''2'')]))
     = \<lparr>Default_headers = [(''Connection'', ''close'')], banner = Some ''SeanP''\<rparr>
   \<and> set_headers \<lparr>Default_headers = [], banner = None\<rparr>
       (PDict [(PStr ''X-A'', PStr [CHR ''a'', CR, LF, CHR ''b''])])
     = (Inr [(''X-A'', ''a  b'')], \<lparr>Default_headers = [(''X-A'', ''a  b'')], banner = None\<rparr>)
   \<and> CR \<notin> set ''a  b'' \<and> LF \<notin> set ''a  b''"
proof -
  let ?d = "\<lparr>Default_headers = [(''Connection'', ''close'')], banner = Some ''SeanP''\<rparr>"
  let ?e = "\<lparr>Default_headers = [], banner = None\<rparr>"
  let ?h = "PDict [(PStr ''X-A'', PStr [CHR ''a'', CR, LF, CHR ''b''])]"
  have run: "set_headers ?e ?h
      = (Inr [(''X-A'', ''a  b'')], \<lparr>Default_headers = [(''X-A'', ''a  b'')], banner = None\<rparr>)"
    by (simp add: set_headers_def replace_char_def bad_chars_def CR_def LF_def)
  have 1: "set_headers ?d (PDict [(PStr ''X-Ok'', PStr ''1''), (PStr ''Bad Name'', PStr ''2'')])
      = (Inl AssertionError, ?d)"
    using set_headers_validates
      [of "''Bad Name''" "PStr ''2''" "[(PStr ''X-Ok'', PStr ''1''), (PStr ''Bad Name'', PStr ''2'')]"
          "CHR '' ''" ?d]
    by (simp add: bad_chars_def)
  have f2: "fst (set_headers ?d (PDict [(PInt 1, PStr ''2'')])) = Inl AssertionError"
    by (simp add: set_headers_def)
  have 2: "snd (set_headers ?d (PDict [(PInt 1, PStr ''2'')])) = ?d"
    using set_headers_validates [where cls = ?d and h = "PDict [(PInt 1, PStr ''2'')]" and e = AssertionError] f2
    by blast
  have 3: "CR \<notin> set ''a  b'' \<and> LF \<notin> set ''a  b''"
    using set_headers_validates [where cls = ?e and h = ?h and r = "[(''X-A'', ''a  b'')]"
        and k = "''X-A''" and w = "''a  b''"]
    by (simp add: run)
  from 1 2 run 3 show ?thesis by blast
qed
section \<open>The dispatcher: requests other than HEAD and OPTIONS\<close>

lemma disabled_other:
  "cmd \<noteq> ''HEAD'' \<Longrightarrow> cmd \<noteq> ''OPTIONS'' \<Longrightarrow> disabled cmd e = Inr False"
  by (simp add: disabled_def)

lemma dispatch_loop_no_own:
  assumes "command rh \<noteq> ''HEAD''" and "command rh \<noteq> ''OPTIONS''"
    and "\<forall>(m, t) \<in> set Q. m = command rh \<longrightarrow> map_of t (primary_path rh) = None"
  shows "dispatch_loop cls P rh Q pending =
    Inr (if \<exists>(m, t) \<in> set Q. map_of t (primary_path rh) \<noteq> None
         then Some (RESP_BAD_METHOD cls) else pending)"
  using assms(3)
proof (induction Q arbitrary: pending)
  case Nil
  then show ?case by simp
next
  case (Cons mt Q)
  obtain m t where mt: "mt = (m, t)" by (cases mt)
  from Cons.prems have rest: "\<forall>(m, t) \<in> set Q. m = command rh \<longrightarrow> map_of t (primary_path rh) = None"
    by simp
  show ?case
  proof (cases "map_of t (primary_path rh)")
    case None
    with Cons.IH [OF rest] show ?thesis by (simp add: mt)
  next
    case (Some e)
    with Cons.prems mt have "m \<noteq> command rh" by auto
    with Some assms(1,2) Cons.IH [OF rest, of "Some (RESP_BAD_METHOD cls)"] show ?thesis
      by (simp add: mt)
  qed
qed

lemma dispatch_loop_own:
  assumes "command rh \<noteq> ''HEAD''" and "command rh \<noteq> ''OPTIONS''"
    and "distinct (map fst Q)" and "(command rh, t) \<in> set Q"
    and "map_of t (primary_path rh) = Some e"
  shows "dispatch_loop cls P rh Q pending =
    (case serve_entry cls rh e of Inl x \<Rightarrow> Inl x | Inr r \<Rightarrow> Inr (Some r))"
  using assms(3,4)
proof (induction Q arbitrary: pending)
  case Nil
  then show ?case by simp
next
  case (Cons mt Q)
  obtain m t' where mt: "mt = (m, t')" by (cases mt)
  show ?case
  proof (cases "m = command rh")
    case True
    with Cons.prems mt have "t' = t"
      by (force simp: image_iff)
    with True assms(1,2,5) show ?thesis
      by (simp add: mt disabled_other)
  next
    case False
    with Cons.prems mt have "distinct (map fst Q)" "(command rh, t) \<in> set Q" by auto
    from Cons.IH [OF this] False assms(1,2) show ?thesis
      by (simp add: mt split: option.splits)
  qed
qed

lemma lookup_Some_iff:
  assumes "distinct (map fst P)"
  shows "lookup P m p = Some e \<longleftrightarrow> (\<exists>t. (m, t) \<in> set P \<and> map_of t p = Some e)"
proof -
  have "\<And>t. (m, t) \<in> set P \<longleftrightarrow> map_of P m = Some t"
    using assms by simp
  then show ?thesis
    by (cases "map_of P m") (simp_all add: lookup_def)
qed

lemma lookup_None_iff:
  assumes "distinct (map fst P)"
  shows "lookup P m p = None \<longleftrightarrow> (\<forall>t. (m, t) \<in> set P \<longrightarrow> map_of t p = None)"
proof -
  have "\<And>t. (m, t) \<in> set P \<longleftrightarrow> map_of P m = Some t"
    using assms by simp
  then show ?thesis
    by (cases "map_of P m") (simp_all add: lookup_def)
qed

lemma lookup_perm:
  assumes "distinct (map fst P)" "distinct (map fst P')" "set P' = set P"
  shows "lookup P' m p = lookup P m p"
proof -
  from assms have "map_of P' = map_of P" by (simp add: map_of_inject_set)
  then show ?thesis by (simp add: lookup_def)
qed

lemma dispatch_other_method:
  assumes "command rh \<noteq> ''HEAD''" and "command rh \<noteq> ''OPTIONS''" and "distinct (map fst P)"
  shows "dispatch cls P rh =
    (case lookup P (command rh) (primary_path rh) of
       Some e \<Rightarrow> serve_entry cls rh e
     | None \<Rightarrow> if \<exists>m. lookup P m (primary_path rh) \<noteq> None
               then Inr (RESP_BAD_METHOD cls) else Inr (RESP_NOT_FOUND cls))"
proof (cases "lookup P (command rh) (primary_path rh)")
  case (Some e)
  with assms(3) obtain t where "(command rh, t) \<in> set P" "map_of t (primary_path rh) = Some e"
    by (auto simp: lookup_Some_iff)
  from dispatch_loop_own [OF assms(1,2,3) this] Some show ?thesis
    by (simp add: dispatch_def split: sum.splits)
next
  case None
  with assms(3) have no: "\<forall>(m, t) \<in> set P. m = command rh \<longrightarrow> map_of t (primary_path rh) = None"
    by (auto simp: lookup_None_iff)
  have ex: "(\<exists>(m, t) \<in> set P. map_of t (primary_path rh) \<noteq> None)
      \<longleftrightarrow> (\<exists>m. lookup P m (primary_path rh) \<noteq> None)"
  proof
    assume "\<exists>(m, t) \<in> set P. map_of t (primary_path rh) \<noteq> None"
    then obtain m t e where "(m, t) \<in> set P" "map_of t (primary_path rh) = Some e" by auto
    with assms(3) have "lookup P m (primary_path rh) = Some e" by (auto simp: lookup_Some_iff)
    then show "\<exists>m. lookup P m (primary_path rh) \<noteq> None" by auto
  next
    assume "\<exists>m. lookup P m (primary_path rh) \<noteq> None"
    then obtain m e where "lookup P m (primary_path rh) = Some e" by auto
    with assms(3) obtain t where "(m, t) \<in> set P" "map_of t (primary_path rh) = Some e"
      by (auto simp: lookup_Some_iff)
    then show "\<exists>(m, t) \<in> set P. map_of t (primary_path rh) \<noteq> None" by auto
  qed
  from dispatch_loop_no_own [OF assms(1,2) no, of cls P None] None ex show ?thesis
    by (simp add: dispatch_def)
qed

lemma endpoints_Default_eq:
  "endpoints_Default =
     \<lparr>Default_headers = [(''X-Example-Default-Header'', ''SeanP''), (''Connection'', ''close'')],
      banner = Some ''Python Web Server by Sean Pesce''\<rparr>"
  by (simp add: endpoints_Default_def Default_initial_def set_headers_def replace_char_def
      bad_chars_def CR_def LF_def)

lemma endpoints_PATHS_eq:
  "PATHS endpoints_WebPathMap =
     [(''CONNECT'', [(''/'', None)]),
      (''DELETE'', [(''/'', None)]),
      (''GET'', [(''/'', None), (''/example01'', Some (class_of ExampleEndpoint01)),
                 (''/example06'', Some (class_of ExampleEndpoint06))]),
      (''PATCH'', [(''/'', None)]),
      (''POST'', [(''/'', None), (''/example2'', Some (class_of ExampleEndpoint02)),
                  (''/example02'', Some (class_of ExampleEndpoint02))]),
      (''PUT'', [(''/'', None), (''/example2'', Some (class_of ExampleEndpoint02)),
                 (''/example02'', Some (class_of ExampleEndpoint02))])]"
  by (simp add: endpoints_WebPathMap_def init_subclass_def WebPathMap_initial_def
      ExampleEndpoint01_def ExampleEndpoint02_def ExampleEndpoint06_def
      cls_DISABLE_HEAD_REQUESTS_def cls_DISABLE_OPTIONS_REQUESTS_def cls_RESPONSE_ENCODING_def
      cls_PARSE_TEMPLATE_def cls_TEMPLATE_ENCODING_def attr_or_def is_bool_def is_str_def Let_def
      cls_PATHS_def cls_REGEX_PATHS_def)

text \<open>
  C1. For a request whose method is neither \<open>HEAD\<close> nor \<open>OPTIONS\<close>, over any route
  table with distinct method keys: when the path is a key of some method's table but
  not of the table of the request's own method, the dispatcher answers 405; when the
  path is a key under the request's own method, the answer is that of the entry bound
  there; and the answer is the same for every order of the per-method tables.
\<close>

theorem dispatch_405_and_own_binding:
  assumes "command rh \<noteq> ''HEAD''" and "command rh \<noteq> ''OPTIONS''" and "distinct (map fst P)"
  shows "(lookup P (command rh) (primary_path rh) = None
            \<and> lookup P m (primary_path rh) \<noteq> None
          \<longrightarrow> dispatch cls P rh = Inr (RESP_BAD_METHOD cls)
              \<and> status_code (RESP_BAD_METHOD cls) = 405)
       \<and> (lookup P (command rh) (primary_path rh) = Some e
          \<longrightarrow> dispatch cls P rh = serve_entry cls rh e)
       \<and> (distinct (map fst P') \<and> set P' = set P
          \<longrightarrow> dispatch cls P' rh = dispatch cls P rh)"
proof (intro conjI impI)
  assume a: "lookup P (command rh) (primary_path rh) = None \<and> lookup P m (primary_path rh) \<noteq> None"
  then have "\<exists>m. lookup P m (primary_path rh) \<noteq> None" by blast
  with a show "dispatch cls P rh = Inr (RESP_BAD_METHOD cls)"
    by (simp add: dispatch_other_method [OF assms])
  show "status_code (RESP_BAD_METHOD cls) = 405" by (simp add: RESP_BAD_METHOD_def)
next
  assume "lookup P (command rh) (primary_path rh) = Some e"
  then show "dispatch cls P rh = serve_entry cls rh e"
    by (simp add: dispatch_other_method [OF assms])
next
  assume p: "distinct (map fst P') \<and> set P' = set P"
  then have "\<And>m p. lookup P' m p = lookup P m p"
    using lookup_perm [OF assms(3)] by blast
  then show "dispatch cls P' rh = dispatch cls P rh"
    using p by (simp add: dispatch_other_method [OF assms] dispatch_other_method [OF assms(1,2)])
qed

lemma class_of_01:
  "handle (class_of ExampleEndpoint01) = hello_world"
  by (simp add: class_of_def ExampleEndpoint01_def)

theorem dispatch_405_and_own_binding_witness:
  "dispatch endpoints_Default (PATHS endpoints_WebPathMap) (bare_request ''POST'' ''/example01'')
     = Inr (RESP_BAD_METHOD endpoints_Default)
   \<and> status_code (RESP_BAD_METHOD endpoints_Default) = 405
   \<and> dispatch endpoints_Default (PATHS endpoints_WebPathMap) (bare_request ''GET'' ''/example01'')
     = Inr \<lparr>status_code = 200,
            headers = [(''X-Example-Default-Header'', ''SeanP''), (''Connection'', ''close''),
                       (''Content-Type'', ''text/plain'')],
            body = ''Hello world!''\<rparr>
   \<and> dispatch endpoints_Default (rev (PATHS endpoints_WebPathMap)) (bare_request ''GET'' ''/example01'')
     = dispatch endpoints_Default (PATHS endpoints_WebPathMap) (bare_request ''GET'' ''/example01'')"
proof -
  let ?P = "PATHS endpoints_WebPathMap"
  let ?post = "bare_request ''POST'' ''/example01''"
  let ?get = "bare_request ''GET'' ''/example01''"
  have d: "distinct (map fst ?P)" by (simp add: endpoints_PATHS_eq)
  have dr: "distinct (map fst (rev ?P)) \<and> set (rev ?P) = set ?P"
    using d by (simp add: rev_map [symmetric])
  have cp: "command ?post \<noteq> ''HEAD''" "command ?post \<noteq> ''OPTIONS''"
    by (simp_all add: bare_request_def)
  have cg: "command ?get \<noteq> ''HEAD''" "command ?get \<noteq> ''OPTIONS''"
    by (simp_all add: bare_request_def)
  have l1: "lookup ?P (command ?post) (primary_path ?post) = None
      \<and> lookup ?P ''GET'' (primary_path ?post) \<noteq> None"
    by (simp add: endpoints_PATHS_eq lookup_def bare_request_def)
  have l2: "lookup ?P (command ?get) (primary_path ?get) = Some (Some (class_of ExampleEndpoint01))"
    by (simp add: endpoints_PATHS_eq lookup_def bare_request_def)
  have s: "serve_entry endpoints_Default ?get (Some (class_of ExampleEndpoint01))
      = Inr \<lparr>status_code = 200,
            headers = [(''X-Example-Default-Header'', ''SeanP''), (''Connection'', ''close''),
                       (''Content-Type'', ''text/plain'')],
            body = ''Hello world!''\<rparr>"
    by (simp add: serve_entry_def class_of_01 hello_world_def RESP_OK_def headers_of_def
        endpoints_Default_eq)
  from dispatch_405_and_own_binding [OF cp d, of "''GET''" endpoints_Default] l1
  have a: "dispatch endpoints_Default ?P ?post = Inr (RESP_BAD_METHOD endpoints_Default)
      \<and> status_code (RESP_BAD_METHOD endpoints_Default) = 405" by blast
  from dispatch_405_and_own_binding [OF cg d, of _ _ "Some (class_of ExampleEndpoint01)"] l2 s
  have b: "dispatch endpoints_Default ?P ?get
      = Inr \<lparr>status_code = 200,
            headers = [(''X-Example-Default-Header'', ''SeanP''), (''Connection'', ''close''),
                       (''Content-Type'', ''text/plain'')],
            body = ''Hello world!''\<rparr>" by simp
  from dispatch_405_and_own_binding [OF cg d, where P' = "rev ?P" and cls = endpoints_Default] dr
  have c: "dispatch endpoints_Default (rev ?P) ?get = dispatch endpoints_Default ?P ?get" by blast
  from a b c show ?thesis by blast
qed

section \<open>The dispatcher: HEAD and OPTIONS requests\<close>

lemma dispatch_loop_first:
  assumes "command rh = ''HEAD'' \<or> command rh = ''OPTIONS''"
  shows "dispatch_loop cls P rh Q pending =
    (case first_table Q (primary_path rh) of
       None \<Rightarrow> Inr pending
     | Some (m, t) \<Rightarrow>
         (case map_of t (primary_path rh) of
            None \<Rightarrow> Inr pending
          | Some e \<Rightarrow>
              (case disabled (command rh) e of
                 Inl x \<Rightarrow> Inl x
               | Inr True \<Rightarrow> Inr (Some (RESP_BAD_METHOD cls))
               | Inr False \<Rightarrow>
                   if command rh = ''OPTIONS''
                   then Inr (Some (options_response cls P (primary_path rh)))
                   else (case serve_entry cls rh e of Inl x \<Rightarrow> Inl x | Inr r \<Rightarrow> Inr (Some r)))))"
proof (induction Q arbitrary: pending)
  case Nil
  then show ?case by (simp add: first_table_def)
next
  case (Cons mt Q)
  obtain m t where mt: "mt = (m, t)" by (cases mt)
  show ?case
  proof (cases "map_of t (primary_path rh)")
    case None
    with Cons.IH show ?thesis by (simp add: mt first_table_def)
  next
    case (Some e)
    with assms show ?thesis by (auto simp: mt first_table_def)
  qed
qed

lemma dispatch_head_options:
  assumes "command rh = ''HEAD'' \<or> command rh = ''OPTIONS''"
    and "first_table P (primary_path rh) = Some (m, t)"
    and "map_of t (primary_path rh) = Some e"
  shows "dispatch cls P rh =
    (case disabled (command rh) e of
       Inl x \<Rightarrow> Inl x
     | Inr True \<Rightarrow> Inr (RESP_BAD_METHOD cls)
     | Inr False \<Rightarrow>
         if command rh = ''OPTIONS'' then Inr (options_response cls P (primary_path rh))
         else serve_entry cls rh e)"
  using assms(2,3)
  by (simp add: dispatch_def dispatch_loop_first [OF assms(1)] split: sum.splits bool.splits)

lemma register_paths_keys_superset:
  "fst ` set t \<subseteq> fst ` set (fst (register_paths method suffix c ps (t, out)))"
proof (induction ps arbitrary: t out)
  case Nil
  then show ?case by simp
next
  case (Cons p ps)
  have "fst ` set t \<subseteq> fst ` set (AList.update p (Some c) t)"
    by (auto simp: dom_update)
  with Cons.IH show ?case by (simp del: dom_update) blast
qed

lemma register_methods_method_order:
  "map fst (PATHS (snd (register_methods c ma ps rs ms W))) = map fst (PATHS W)"
proof (induction ms arbitrary: W rs)
  case Nil
  then show ?case by simp
next
  case (Cons m0 ms)
  show ?case
  proof (cases "map_of (PATHS W) m0")
    case None
    then show ?thesis by (simp split: option.splits)
  next
    case (Some t)
    then have k: "m0 \<in> fst ` set (PATHS W)"
      by (metis domI dom_map_of_conv_image_fst)
    have upd: "\<And>t'. map fst (AList.update m0 t' (PATHS W)) = map fst (PATHS W)"
      using k by (simp add: update_keys)
    show ?thesis
      using Some upd Cons.IH
      by (simp add: Let_def split: prod.splits option.splits)
  qed
qed

lemma init_subclass_method_order:
  "map fst (PATHS (snd (init_subclass W d))) = map fst (PATHS W)"
  by (simp add: init_subclass_def Let_def register_methods_method_order split: option.splits)

text \<open>
  C10. For a \<open>HEAD\<close> or \<open>OPTIONS\<close> request the dispatcher takes the entry of the
  first table, in the order of \<open>PATHS\<close>, that has the request path as a key, whatever
  the method of that table. The order is \<open>CONNECT, DELETE, GET, PATCH, POST, PUT\<close>
  at the start and registration keeps it. When the entry is a handler class, a
  \<open>HEAD\<close> request gets 405 if the class disables \<open>HEAD\<close> and otherwise the response
  of that class's handler; an \<open>OPTIONS\<close> request gets 405 if the class disables
  \<open>OPTIONS\<close> and otherwise the 204 answer. So a \<open>HEAD\<close> request to a path registered
  only for \<open>POST\<close> runs the \<open>POST\<close> handler.
\<close>

theorem head_options_first_table:
  "map fst (PATHS WebPathMap_initial) = [''CONNECT'', ''DELETE'', ''GET'', ''PATCH'', ''POST'', ''PUT'']
   \<and> map fst (PATHS (snd (init_subclass W d))) = map fst (PATHS W)
   \<and> ((command rh = ''HEAD'' \<or> command rh = ''OPTIONS'')
        \<and> first_table P (primary_path rh) = Some (m, t)
        \<and> map_of t (primary_path rh) = Some (Some h)
      \<longrightarrow> dispatch cls P rh =
            (if command rh = ''HEAD''
             then (if DISABLE_HEAD_REQUESTS h then Inr (RESP_BAD_METHOD cls)
                   else serve_entry cls rh (Some h))
             else (if DISABLE_OPTIONS_REQUESTS h then Inr (RESP_BAD_METHOD cls)
                   else Inr (options_response cls P (primary_path rh)))))"
proof (intro conjI impI)
  show "map fst (PATHS WebPathMap_initial) = [''CONNECT'', ''DELETE'', ''GET'', ''PATCH'', ''POST'', ''PUT'']"
    by (simp add: WebPathMap_initial_def)
  show "map fst (PATHS (snd (init_subclass W d))) = map fst (PATHS W)"
    by (rule init_subclass_method_order)
next
  assume a: "(command rh = ''HEAD'' \<or> command rh = ''OPTIONS'')
        \<and> first_table P (primary_path rh) = Some (m, t)
        \<and> map_of t (primary_path rh) = Some (Some h)"
  then have c: "command rh = ''HEAD'' \<or> command rh = ''OPTIONS''"
    and f: "first_table P (primary_path rh) = Some (m, t)"
    and e: "map_of t (primary_path rh) = Some (Some h)" by blast+
  show "dispatch cls P rh =
            (if command rh = ''HEAD''
             then (if DISABLE_HEAD_REQUESTS h then Inr (RESP_BAD_METHOD cls)
                   else serve_entry cls rh (Some h))
             else (if DISABLE_OPTIONS_REQUESTS h then Inr (RESP_BAD_METHOD cls)
                   else Inr (options_response cls P (primary_path rh))))"
    using c by (auto simp: dispatch_head_options [OF c f e] disabled_def)
qed

lemma post_only_PATHS:
  "PATHS (snd (init_subclass WebPathMap_initial (ExampleEndpoint02\<lparr>decl_METHODS := Some [''POST'']\<rparr>)))
     = [(''CONNECT'', [(''/'', None)]),
        (''DELETE'', [(''/'', None)]),
        (''GET'', [(''/'', None)]),
        (''PATCH'', [(''/'', None)]),
        (''POST'', [(''/'', None),
           (''/example2'', Some (class_of (ExampleEndpoint02\<lparr>decl_METHODS := Some [''POST'']\<rparr>))),
           (''/example02'', Some (class_of (ExampleEndpoint02\<lparr>decl_METHODS := Some [''POST'']\<rparr>)))]),
        (''PUT'', [(''/'', None)])]"
  by (simp add: init_subclass_def WebPathMap_initial_def ExampleEndpoint02_def
      cls_DISABLE_HEAD_REQUESTS_def cls_DISABLE_OPTIONS_REQUESTS_def cls_RESPONSE_ENCODING_def
      cls_PARSE_TEMPLATE_def cls_TEMPLATE_ENCODING_def attr_or_def is_bool_def is_str_def Let_def
      cls_PATHS_def cls_REGEX_PATHS_def)

theorem head_options_first_table_witness:
  "dispatch endpoints_Default
     (PATHS (snd (init_subclass WebPathMap_initial (ExampleEndpoint02\<lparr>decl_METHODS := Some [''POST'']\<rparr>))))
     (bare_request ''HEAD'' ''/example2'')
   = Inr \<lparr>status_code = 200,
          headers = [(''X-Example-Default-Header'', ''SeanP''), (''Connection'', ''close''),
                     (''Content-Type'', ''application/octet-stream'')],
          body = []\<rparr>
   \<and> dispatch endpoints_Default (PATHS endpoints_WebPathMap) (bare_request ''HEAD'' ''/example06'')
   = Inr (RESP_BAD_METHOD endpoints_Default)"
proof -
  let ?d = "ExampleEndpoint02\<lparr>decl_METHODS := Some [''POST'']\<rparr>"
  let ?P = "PATHS (snd (init_subclass WebPathMap_initial ?d))"
  let ?rh = "bare_request ''HEAD'' ''/example2''"
  let ?rh6 = "bare_request ''HEAD'' ''/example06''"
  have c: "command ?rh = ''HEAD'' \<or> command ?rh = ''OPTIONS''" by (simp add: bare_request_def)
  have f: "first_table ?P (primary_path ?rh)
      = Some (''POST'', [(''/'', None), (''/example2'', Some (class_of ?d)),
                         (''/example02'', Some (class_of ?d))])"
    by (simp add: post_only_PATHS first_table_def bare_request_def)
  have e: "map_of [(''/'', None), (''/example2'', Some (class_of ?d)),
                   (''/example02'', Some (class_of ?d))] (primary_path ?rh) = Some (Some (class_of ?d))"
    by (simp add: bare_request_def)
  have s: "serve_entry endpoints_Default ?rh (Some (class_of ?d))
      = Inr \<lparr>status_code = 200,
          headers = [(''X-Example-Default-Header'', ''SeanP''), (''Connection'', ''close''),
                     (''Content-Type'', ''application/octet-stream'')],
          body = []\<rparr>"
    by (simp add: serve_entry_def class_of_def ExampleEndpoint02_def echo_payload_def RESP_OK_def
        headers_of_def endpoints_Default_eq bare_request_def)
  have nd: "\<not> DISABLE_HEAD_REQUESTS (class_of ?d)"
    by (simp add: class_of_def ExampleEndpoint02_def cls_DISABLE_HEAD_REQUESTS_def attr_or_def)
  have h: "command ?rh = ''HEAD''" by (simp add: bare_request_def)
  from head_options_first_table [where rh = ?rh and P = ?P and cls = endpoints_Default
      and h = "class_of ?d" and m = "''POST''"
      and t = "[(''/'', None), (''/example2'', Some (class_of ?d)),
                (''/example02'', Some (class_of ?d))]"] c f e
  have "dispatch endpoints_Default ?P ?rh =
      (if command ?rh = ''HEAD''
       then (if DISABLE_HEAD_REQUESTS (class_of ?d) then Inr (RESP_BAD_METHOD endpoints_Default)
             else serve_entry endpoints_Default ?rh (Some (class_of ?d)))
       else (if DISABLE_OPTIONS_REQUESTS (class_of ?d) then Inr (RESP_BAD_METHOD endpoints_Default)
             else Inr (options_response endpoints_Default ?P (primary_path ?rh))))"
    by blast
  with h nd
  have 1: "dispatch endpoints_Default ?P ?rh = serve_entry endpoints_Default ?rh (Some (class_of ?d))"
    by simp
  have c6: "command ?rh6 = ''HEAD'' \<or> command ?rh6 = ''OPTIONS''" by (simp add: bare_request_def)
  have f6: "first_table (PATHS endpoints_WebPathMap) (primary_path ?rh6)
      = Some (''GET'', [(''/'', None), (''/example01'', Some (class_of ExampleEndpoint01)),
                 (''/example06'', Some (class_of ExampleEndpoint06))])"
    by (simp add: endpoints_PATHS_eq first_table_def bare_request_def)
  have e6: "map_of [(''/'', None), (''/example01'', Some (class_of ExampleEndpoint01)),
                 (''/example06'', Some (class_of ExampleEndpoint06))] (primary_path ?rh6)
      = Some (Some (class_of ExampleEndpoint06))"
    by (simp add: bare_request_def)
  have d6: "DISABLE_HEAD_REQUESTS (class_of ExampleEndpoint06)"
    by (simp add: class_of_def ExampleEndpoint06_def cls_DISABLE_HEAD_REQUESTS_def attr_or_def)
  have h6: "command ?rh6 = ''HEAD''" by (simp add: bare_request_def)
  from head_options_first_table [where rh = ?rh6 and P = "PATHS endpoints_WebPathMap"
      and cls = endpoints_Default and h = "class_of ExampleEndpoint06" and m = "''GET''"
      and t = "[(''/'', None), (''/example01'', Some (class_of ExampleEndpoint01)),
                 (''/example06'', Some (class_of ExampleEndpoint06))]"] c6 f6 e6
  have "dispatch endpoints_Default (PATHS endpoints_WebPathMap) ?rh6 =
      (if command ?rh6 = ''HEAD''
       then (if DISABLE_HEAD_REQUESTS (class_of ExampleEndpoint06)
             then Inr (RESP_BAD_METHOD endpoints_Default)
             else serve_entry endpoints_Default ?rh6 (Some (class_of ExampleEndpoint06)))
       else (if DISABLE_OPTIONS_REQUESTS (class_of ExampleEndpoint06)
             then Inr (RESP_BAD_METHOD endpoints_Default)
             else Inr (options_response endpoints_Default (PATHS endpoints_WebPathMap)
                         (primary_path ?rh6))))"
    by blast
  with h6 d6
  have 2: "dispatch endpoints_Default (PATHS endpoints_WebPathMap) ?rh6
      = Inr (RESP_BAD_METHOD endpoints_Default)"
    by simp
  from 1 s 2 show ?thesis by simp
qed

text \<open>
  C3. A request that matches an entry bound to \<open>None\<close> and is not an \<open>OPTIONS\<close>
  request is to be answered with a bare 200, \<open>HEAD\<close> requests included. On the
  initial route table a \<open>GET\<close> of the default path is answered so, while a \<open>HEAD\<close>
  of the same path raises \<open>AttributeError\<close>: the disable flag is read from the
  \<open>None\<close> entry before the test for \<open>None\<close>.
\<close>

theorem head_on_sentinel_raises:
  "dispatch endpoints_Default (PATHS WebPathMap_initial) (bare_request ''HEAD'' ''/'')
     = Inl AttributeError
   \<and> dispatch endpoints_Default (PATHS WebPathMap_initial) (bare_request ''GET'' ''/'')
     = Inr (RESP_OK endpoints_Default)"
  by (simp add: dispatch_def WebPathMap_initial_def bare_request_def disabled_def serve_entry_def)

text \<open>
  C2. An \<open>OPTIONS\<close> request to a path that some table has is to be answered with 204
  and the \<open>Allow\<close> list, also where the entry is \<open>None\<close>. On the initial route table
  an \<open>OPTIONS\<close> request to the default path raises \<open>AttributeError\<close> instead, for the
  same reason as the \<open>HEAD\<close> request above.
\<close>

theorem options_on_sentinel_raises:
  "dispatch endpoints_Default (PATHS WebPathMap_initial) (bare_request ''OPTIONS'' ''/'')
     = Inl AttributeError"
  by (simp add: dispatch_def WebPathMap_initial_def bare_request_def disabled_def)

section \<open>Where the sentinel and OPTIONS answers are as specified\<close>

text \<open>
  The answers that the two properties above ask for are given whenever no attribute is
  read from a \<open>None\<close> entry: the \<open>Allow\<close> value is the comma-joined list of the
  methods whose table has the path, and an entry bound to \<open>None\<close> is served with a
  bare 200 for methods other than \<open>HEAD\<close> and \<open>OPTIONS\<close>.
\<close>

lemma allow_loop_concat:
  "allow_loop P path acc = acc @ concat (map (\<lambda>m. m @ '', '') (methods_with P path))"
  by (induction P arbitrary: acc) (auto simp: methods_with_def)

lemma concat_comma_join:
  "ms \<noteq> [] \<Longrightarrow> concat (map (\<lambda>m. m @ '', '') ms) = spec_comma_join ms @ '', ''"
  by (induction ms rule: spec_comma_join.induct) simp_all

lemma allow_header_comma_join:
  "allow_header P path = spec_comma_join (methods_with P path)"
proof (cases "methods_with P path = []")
  case True
  then show ?thesis by (simp add: allow_header_def allow_loop_concat)
next
  case False
  then show ?thesis
    by (simp add: allow_header_def allow_loop_concat concat_comma_join Let_def)
qed

lemma options_allow_registered:
  assumes "command rh = ''OPTIONS''"
    and "first_table P (primary_path rh) = Some (m, t)"
    and "map_of t (primary_path rh) = Some (Some h)"
    and "\<not> DISABLE_OPTIONS_REQUESTS h"
  shows "\<exists>r. dispatch cls P rh = Inr r \<and> status_code r = 204
    \<and> map_of (headers r) ''Allow'' = Some (spec_comma_join (methods_with P (primary_path rh)))"
proof -
  have "dispatch cls P rh = Inr (options_response cls P (primary_path rh))"
    using assms dispatch_head_options [of rh P m t "Some h" cls]
    by (simp add: disabled_def)
  then show ?thesis
    by (simp add: options_response_def RESP_NO_CONTENT_def update_conv' allow_header_comma_join)
qed

lemma sentinel_bare_ok:
  assumes "command rh \<noteq> ''HEAD''" and "command rh \<noteq> ''OPTIONS''" and "distinct (map fst P)"
    and "lookup P (command rh) (primary_path rh) = Some None"
  shows "dispatch cls P rh = Inr \<lparr>status_code = 200, headers = Default_headers cls, body = []\<rparr>"
  using assms(4)
  by (simp add: dispatch_other_method [OF assms(1,2,3)] serve_entry_def RESP_OK_def headers_of_def)

section \<open>Query parameter lookup\<close>

text \<open>
  C4 as stated (the case-sensitive lookup returns the first value as one string, and
  the default itself when the key is absent) fails: for the query \<open>SeanP=1&SeanP=2\<close>
  the result for \<open>SeanP\<close> is not the string \<open>1\<close>, and the result for an absent key is
  not the default string.
\<close>

theorem get_url_query_param_first_value_counterexample:
  "get_url_query_param ((bare_request ''GET'' ''/'')\<lparr>query := [(''SeanP'', [''1'', ''2''])]\<rparr>)
       ''SeanP'' (PStr ''dflt'') True \<noteq> PStr ''1''
   \<and> get_url_query_param ((bare_request ''GET'' ''/'')\<lparr>query := [(''SeanP'', [''1'', ''2''])]\<rparr>)
       ''other'' (PStr ''dflt'') True \<noteq> PStr ''dflt''"
  by (simp add: get_url_query_param_def bare_request_def)

text \<open>
  C4, amended. In case-sensitive mode the lookup returns the list of all values bound
  to the key, in their order, so that the first value is its first element; when the
  key is absent it returns a one-element list holding the default value.
\<close>

theorem get_url_query_param_case_sensitive:
  "(map_of (query rh) key = Some vs
      \<longrightarrow> get_url_query_param rh key default_val True = PList (map PStr vs))
   \<and> (map_of (query rh) key = Some (v # vs')
      \<longrightarrow> (\<exists>rest. get_url_query_param rh key default_val True = PList (PStr v # rest)))
   \<and> (map_of (query rh) key = None
      \<longrightarrow> get_url_query_param rh key default_val True = PList [default_val])"
  by (simp add: get_url_query_param_def)

theorem get_url_query_param_case_sensitive_witness:
  "get_url_query_param ((bare_request ''GET'' ''/'')\<lparr>query := [(''SeanP'', [''1'', ''2''])]\<rparr>)
       ''SeanP'' (PStr ''dflt'') True = PList [PStr ''1'', PStr ''2'']
   \<and> get_url_query_param ((bare_request ''GET'' ''/'')\<lparr>query := [(''SeanP'', [''1'', ''2''])]\<rparr>)
       ''other'' (PStr ''dflt'') True = PList [PStr ''dflt'']"
proof -
  let ?rh = "(bare_request ''GET'' ''/'')\<lparr>query := [(''SeanP'', [''1'', ''2''])]\<rparr>"
  have q1: "map_of (query ?rh) ''SeanP'' = Some [''1'', ''2'']" by (simp add: bare_request_def)
  have q2: "map_of (query ?rh) ''other'' = None" by (simp add: bare_request_def)
  from get_url_query_param_case_sensitive [of ?rh "''SeanP''" "[''1'', ''2'']" "PStr ''dflt''"] q1
  have a: "get_url_query_param ?rh ''SeanP'' (PStr ''dflt'') True = PList [PStr ''1'', PStr ''2'']"
    by simp
  from get_url_query_param_case_sensitive [of ?rh "''other''" _ "PStr ''dflt''"] q2
  have b: "get_url_query_param ?rh ''other'' (PStr ''dflt'') True = PList [PStr ''dflt'']"
    by simp
  from a b show ?thesis by simp
qed

section \<open>Sending the response: headers and body\<close>

lemma lower_content_length: "lower ''Content-Length'' = ''content-length''"
  by code_simp

lemma lower_server: "lower ''Server'' = ''server''"
  by code_simp

lemma lower_date: "lower ''Date'' = ''date''"
  by code_simp

lemma set_send_headers:
  assumes "request_version rh \<noteq> ''HTTP/0.9''"
  shows "set (concat (map (send_header cls rh) hs))
     = {kv \<in> set hs. \<not> (lower (fst kv) = ''server'' \<and> banner cls = None)}"
  using assms by (induction hs) (auto simp: send_header_def super_send_header_def)

lemma send_response_no_content_length:
  "(''Content-Length'', v) \<notin> set (snd (send_response L cls rh code))"
  by (auto simp: send_response_def send_header_def super_send_header_def split: if_splits)

lemma set_update_distinct:
  assumes "distinct (map fst al)"
  shows "(k', v') \<in> set (AList.update k v al)
     \<longleftrightarrow> (if k' = k then v' = v else (k', v') \<in> set al)"
proof -
  have d: "distinct (map fst (AList.update k v al))"
    using assms by (rule distinct_update)
  have "(k', v') \<in> set (AList.update k v al) \<longleftrightarrow> map_of (AList.update k v al) k' = Some v'"
    using d by simp
  also have "\<dots> \<longleftrightarrow> (if k' = k then v' = v else map_of al k' = Some v')"
    by (auto simp: update_conv')
  also have "\<dots> \<longleftrightarrow> (if k' = k then v' = v else (k', v') \<in> set al)"
    using assms by simp
  finally show ?thesis .
qed

text \<open>
  C7 as stated fails in four ways. Its parenthesis (no \<open>Content-Length\<close> header is
  sent for an empty body) fails for a response with an empty body whose own headers
  carry a \<open>Content-Length\<close>: it is sent with that header. Not all headers are sent
  for \<open>HEAD\<close>: with the banner disabled a \<open>Server\<close> header of the response is
  dropped. For a \<open>GET\<close> request of version \<open>HTTP/0.9\<close> neither status line nor
  headers are written, so a response with a body goes out without a \<open>Content-Length\<close>
  header. And a response whose status code has no reason phrase raises \<open>KeyError\<close>
  with nothing written.
\<close>

theorem send_pending_response_wire_counterexample:
  "send_pending_response example_lib endpoints_Default (bare_request ''GET'' ''/'')
      \<lparr>status_code = 200, headers = [(''Content-Length'', ''5'')], body = []\<rparr>
   = Inr \<lparr>w_status = Some 200,
          w_headers = [(''Server'', ''Python Web Server by Sean Pesce''),
                       (''Date'', ''Thu, 01 Jan 1970 00:00:00 GMT''),
                       (''Content-Length'', ''5'')],
          w_body = None\<rparr>
   \<and> send_pending_response example_lib (endpoints_Default\<lparr>banner := None\<rparr>)
      (bare_request ''HEAD'' ''/'')
      \<lparr>status_code = 200, headers = [(''Server'', ''SeanP''), (''X-Other'', ''1'')], body = []\<rparr>
   = Inr \<lparr>w_status = Some 200,
          w_headers = [(''Date'', ''Thu, 01 Jan 1970 00:00:00 GMT''), (''X-Other'', ''1'')],
          w_body = None\<rparr>
   \<and> send_pending_response example_lib endpoints_Default
      ((bare_request ''GET'' ''/example01'')\<lparr>request_version := ''HTTP/0.9''\<rparr>)
      \<lparr>status_code = 200, headers = [(''Content-Type'', ''text/plain'')],
         body = ''Hello world!''\<rparr>
   = Inr \<lparr>w_status = None, w_headers = [], w_body = Some ''Hello world!''\<rparr>
   \<and> send_pending_response example_lib endpoints_Default (bare_request ''GET'' ''/'')
      \<lparr>status_code = 299, headers = [], body = []\<rparr>
   = Inl KeyError"
proof -
  have l: "lower ''X-Other'' \<noteq> ''server''" "lower ''Content-Type'' \<noteq> ''server''"
    by code_simp+
  show ?thesis
    by (simp add: send_pending_response_def send_response_def send_response_only_def
        send_header_def super_send_header_def endpoints_Default_eq bare_request_def l
        lower_content_length lower_server lower_date example_lib_def example_responses_def)
qed

text \<open>
  C7, amended. For every response that is serialized for a request of a version other
  than \<open>HTTP/0.9\<close> (its status code has a reason phrase in \<open>http.client.responses\<close>,
  its headers are a dictionary): the status line carries the status code; a
  \<open>Content-Length\<close> header equal to the body length is injected if and only if the
  body is not empty; it is then the only \<open>Content-Length\<close> header sent, and for an
  empty body a \<open>Content-Length\<close> header is sent exactly when the response's own
  headers carry one. The body is written if and only if the method is neither \<open>HEAD\<close>
  nor \<open>OPTIONS\<close> and the body is not empty. The status and the header lines do not
  depend on the method, and every other header of the response is sent, except one named
  \<open>Server\<close> when the banner is disabled.
\<close>

theorem send_pending_response_wire:
  assumes "distinct (map fst (headers pending))"
    and "http_responses L (status_code pending) = Some phrase"
    and "request_version rh \<noteq> ''HTTP/0.9''"
  shows "\<exists>w. send_pending_response L cls rh pending = Inr w
     \<and> w_status w = Some (status_code pending)
     \<and> (body pending \<noteq> [] \<longrightarrow>
          (''Content-Length'', str_nat (length (body pending))) \<in> set (w_headers w)
          \<and> (\<forall>v. (''Content-Length'', v) \<in> set (w_headers w)
                \<longrightarrow> v = str_nat (length (body pending))))
     \<and> (body pending = [] \<longrightarrow>
          (\<forall>v. (''Content-Length'', v) \<in> set (w_headers w)
                \<longleftrightarrow> (''Content-Length'', v) \<in> set (headers pending)))
     \<and> w_body w = (if command rh \<noteq> ''HEAD'' \<and> command rh \<noteq> ''OPTIONS'' \<and> body pending \<noteq> []
                   then Some (body pending) else None)
     \<and> (\<forall>k v. (k, v) \<in> set (headers pending) \<and> k \<noteq> ''Content-Length''
                \<and> \<not> (lower k = ''server'' \<and> banner cls = None)
              \<longrightarrow> (k, v) \<in> set (w_headers w))
     \<and> (\<forall>c. \<exists>w'. send_pending_response L cls (rh\<lparr>command := c\<rparr>) pending = Inr w'
              \<and> w_status w' = w_status w \<and> w_headers w' = w_headers w)"
proof -
  define hdrs where "hdrs = (if length (body pending) > 0
      then AList.update ''Content-Length'' (str_nat (length (body pending))) (headers pending)
      else headers pending)"
  define sent where "sent = concat (map (send_header cls rh) hdrs)"
  define first where "first = snd (send_response L cls rh (status_code pending))"
  have sent: "set sent = {kv \<in> set hdrs. \<not> (lower (fst kv) = ''server'' \<and> banner cls = None)}"
    unfolding sent_def using assms(3) by (rule set_send_headers)
  have first_cl: "\<And>v. (''Content-Length'', v) \<notin> set first"
    unfolding first_def by (rule send_response_no_content_length)
  have sr: "\<And>c. send_response L cls (rh\<lparr>command := c\<rparr>) (status_code pending)
      = (Some (status_code pending), first)"
    using assms(3)
    by (simp add: first_def send_response_def send_response_only_def send_header_def
        super_send_header_def)
  have sr0: "send_response L cls rh (status_code pending) = (Some (status_code pending), first)"
    using sr [of "command rh"] by simp
  have she: "\<And>c. send_header cls (rh\<lparr>command := c\<rparr>) = send_header cls rh"
    by (rule ext) (simp add: send_header_def super_send_header_def)
  have sh: "\<And>c. concat (map (send_header cls (rh\<lparr>command := c\<rparr>)) hdrs) = sent"
    by (simp add: sent_def she)
  define w where "w = \<lparr>w_status = Some (status_code pending),
      w_headers = first @ sent,
      w_body = (if command rh \<notin> set [''HEAD'', ''OPTIONS''] \<and> length (body pending) > 0
                then Some (body pending) else None)\<rparr>"
  have run: "send_pending_response L cls rh pending = Inr w"
    using assms(2) by (simp add: send_pending_response_def sr0 hdrs_def w_def sent_def)
  have run': "\<And>c. send_pending_response L cls (rh\<lparr>command := c\<rparr>) pending
      = Inr (w\<lparr>w_body := (if c \<notin> set [''HEAD'', ''OPTIONS''] \<and> length (body pending) > 0
                then Some (body pending) else None)\<rparr>)"
    using assms(2) sh
    by (simp add: send_pending_response_def sr hdrs_def w_def)
  have cl: "\<And>v. (''Content-Length'', v) \<in> set (w_headers w) \<longleftrightarrow> (''Content-Length'', v) \<in> set hdrs"
    by (auto simp: w_def sent first_cl lower_content_length)
  have nonempty: "body pending \<noteq> [] \<Longrightarrow>
      (''Content-Length'', v) \<in> set hdrs \<longleftrightarrow> v = str_nat (length (body pending))" for v
    using set_update_distinct [OF assms(1), of "''Content-Length''" v "''Content-Length''"]
    by (simp add: hdrs_def)
  have empty: "body pending = [] \<Longrightarrow> hdrs = headers pending"
    by (simp add: hdrs_def)
  have others: "(k, v) \<in> set (headers pending) \<Longrightarrow> k \<noteq> ''Content-Length''
      \<Longrightarrow> \<not> (lower k = ''server'' \<and> banner cls = None) \<Longrightarrow> (k, v) \<in> set (w_headers w)" for k v
    using set_update_distinct [OF assms(1), of k v "''Content-Length''"]
    by (auto simp: w_def sent hdrs_def)
  have b: "w_body w = (if command rh \<noteq> ''HEAD'' \<and> command rh \<noteq> ''OPTIONS'' \<and> body pending \<noteq> []
                   then Some (body pending) else None)"
    by (simp add: w_def)
  have s: "w_status w = Some (status_code pending)" by (simp add: w_def)
  have p3: "body pending \<noteq> [] \<longrightarrow>
          (''Content-Length'', str_nat (length (body pending))) \<in> set (w_headers w)
          \<and> (\<forall>v. (''Content-Length'', v) \<in> set (w_headers w)
                \<longrightarrow> v = str_nat (length (body pending)))"
    by (simp add: cl nonempty)
  have p4: "body pending = [] \<longrightarrow>
          (\<forall>v. (''Content-Length'', v) \<in> set (w_headers w)
                \<longleftrightarrow> (''Content-Length'', v) \<in> set (headers pending))"
    by (simp add: cl empty)
  have p6: "\<forall>k v. (k, v) \<in> set (headers pending) \<and> k \<noteq> ''Content-Length''
                \<and> \<not> (lower k = ''server'' \<and> banner cls = None)
              \<longrightarrow> (k, v) \<in> set (w_headers w)"
    using others by blast
  have p7: "\<forall>c. \<exists>w'. send_pending_response L cls (rh\<lparr>command := c\<rparr>) pending = Inr w'
              \<and> w_status w' = w_status w \<and> w_headers w' = w_headers w"
    by (simp add: run')
  show ?thesis
    by (rule exI [of _ w], intro conjI) (fact run s p3 p4 b p6 p7)+
qed

lemma str_nat_12: "str_nat 12 = ''12''"
  by code_simp

theorem send_pending_response_wire_witness:
  "\<exists>w. send_pending_response example_lib endpoints_Default (bare_request ''HEAD'' ''/example01'')
          \<lparr>status_code = 200, headers = [(''Content-Type'', ''text/plain'')],
             body = ''Hello world!''\<rparr> = Inr w
     \<and> w_status w = Some 200
     \<and> (''Content-Length'', ''12'') \<in> set (w_headers w)
     \<and> (''Content-Type'', ''text/plain'') \<in> set (w_headers w)
     \<and> w_body w = None"
proof -
  let ?p = "\<lparr>status_code = 200, headers = [(''Content-Type'', ''text/plain'')],
             body = ''Hello world!''\<rparr>"
  let ?rh = "bare_request ''HEAD'' ''/example01''"
  have d: "distinct (map fst (headers ?p))" by simp
  have r: "http_responses example_lib (status_code ?p) = Some ''OK''"
    by (simp add: example_lib_def example_responses_def)
  have ver: "request_version ?rh \<noteq> ''HTTP/0.9''" by (simp add: bare_request_def)
  have ne: "body ?p \<noteq> []" by simp
  have "length (body ?p) = 12" by simp
  then have len: "str_nat (length (body ?p)) = ''12''" by (simp only: str_nat_12)
  have ct: "(''Content-Type'', ''text/plain'') \<in> set (headers ?p)
      \<and> ''Content-Type'' \<noteq> ''Content-Length''
      \<and> \<not> (lower ''Content-Type'' = ''server'' \<and> banner endpoints_Default = None)"
    by (simp add: endpoints_Default_eq)
  have cmd: "command ?rh = ''HEAD''" by (simp add: bare_request_def)
  from send_pending_response_wire [OF d r ver, of endpoints_Default]
  obtain w where w: "send_pending_response example_lib endpoints_Default ?rh ?p = Inr w"
    and s: "w_status w = Some (status_code ?p)"
    and c: "body ?p \<noteq> [] \<longrightarrow> (''Content-Length'', str_nat (length (body ?p))) \<in> set (w_headers w)
          \<and> (\<forall>v. (''Content-Length'', v) \<in> set (w_headers w) \<longrightarrow> v = str_nat (length (body ?p)))"
    and b: "w_body w = (if command ?rh \<noteq> ''HEAD'' \<and> command ?rh \<noteq> ''OPTIONS'' \<and> body ?p \<noteq> []
                   then Some (body ?p) else None)"
    and o: "\<forall>k v. (k, v) \<in> set (headers ?p) \<and> k \<noteq> ''Content-Length''
                \<and> \<not> (lower k = ''server'' \<and> banner endpoints_Default = None)
              \<longrightarrow> (k, v) \<in> set (w_headers w)"
    by blast
  from c ne len have 1: "(''Content-Length'', ''12'') \<in> set (w_headers w)" by metis
  from o ct have 2: "(''Content-Type'', ''text/plain'') \<in> set (w_headers w)" by blast
  from b cmd have 3: "w_body w = None" by simp
  from s have 4: "w_status w = Some 200" by simp
  from w 1 2 3 4 show ?thesis by blast
qed
section \<open>Registration: last registration wins\<close>

lemma register_paths_map_of:
  "map_of (fst (register_paths method sfx c ps (t, out))) p
     = (if p \<in> set ps then Some (Some c) else map_of t p)"
  by (induction ps arbitrary: t out) (auto simp: update_conv')

text \<open>
  The lines one inner loop prints come after those printed before; there is one for
  every path of the class that was a key of the table, and when the paths of the class
  are distinct there are no others.
\<close>

lemma register_paths_out:
  "\<exists>new. snd (register_paths method sfx c ps (t, out)) = out @ new
     \<and> (\<forall>p \<in> set ps. map_of t p \<noteq> None \<longrightarrow> overwrite_warning method p @ sfx \<in> set new)
     \<and> (distinct ps \<longrightarrow>
          new = map (\<lambda>p. overwrite_warning method p @ sfx) (filter (\<lambda>p. map_of t p \<noteq> None) ps))"
proof (induction ps arbitrary: t out)
  case Nil
  show ?case by simp
next
  case (Cons q ps)
  let ?w = "\<lambda>p. overwrite_warning method p @ sfx"
  let ?t1 = "AList.update q (Some c) t"
  let ?first = "if map_of t q \<noteq> None then [?w q] else []"
  from Cons.IH [of ?t1 "out @ ?first"] obtain new1 where
    n1: "snd (register_paths method sfx c ps (?t1, out @ ?first)) = (out @ ?first) @ new1"
    and m1: "\<forall>p \<in> set ps. map_of ?t1 p \<noteq> None \<longrightarrow> ?w p \<in> set new1"
    and e1: "distinct ps \<longrightarrow> new1 = map ?w (filter (\<lambda>p. map_of ?t1 p \<noteq> None) ps)"
    by blast
  have o: "(if map_of t q \<noteq> None
            then out @ [''[Warning] Overwriting '' @ method @ '' '' @ q @ sfx] else out)
      = out @ ?first"
    by (simp add: overwrite_warning_def)
  have run: "snd (register_paths method sfx c (q # ps) (t, out)) = out @ (?first @ new1)"
    unfolding register_paths.simps o n1 by simp
  have mem: "\<forall>p \<in> set (q # ps). map_of t p \<noteq> None \<longrightarrow> ?w p \<in> set (?first @ new1)"
  proof (intro ballI impI)
    fix p assume p: "p \<in> set (q # ps)" and b: "map_of t p \<noteq> None"
    show "?w p \<in> set (?first @ new1)"
    proof (cases "p = q")
      case True
      with b show ?thesis by simp
    next
      case False
      with p have "p \<in> set ps" by simp
      moreover have "map_of ?t1 p \<noteq> None" using b False by (simp add: update_conv')
      ultimately have "?w p \<in> set new1" using m1 by blast
      then show ?thesis by simp
    qed
  qed
  have ex: "distinct (q # ps) \<longrightarrow>
      ?first @ new1 = map ?w (filter (\<lambda>p. map_of t p \<noteq> None) (q # ps))"
  proof
    assume d: "distinct (q # ps)"
    then have nq: "q \<notin> set ps" and dp: "distinct ps" by simp_all
    have "filter (\<lambda>p. map_of ?t1 p \<noteq> None) ps = filter (\<lambda>p. map_of t p \<noteq> None) ps"
      using nq by (intro filter_cong refl) (auto simp: update_conv')
    with e1 dp have "new1 = map ?w (filter (\<lambda>p. map_of t p \<noteq> None) ps)" by simp
    then show "?first @ new1 = map ?w (filter (\<lambda>p. map_of t p \<noteq> None) (q # ps))" by simp
  qed
  show ?case
    by (rule exI [of _ "?first @ new1"]) (intro conjI run mem ex)
qed

lemma lookup_update:
  "lookup (AList.update m0 t' P) m p = (if m = m0 then map_of t' p else lookup P m p)"
  by (simp add: lookup_def update_conv')

text \<open>
  One round of the loop over the methods, for a method that is a key of the tables: the
  round binds the paths of the class under that method in both tables and prints its
  warnings.
\<close>

lemma register_methods_step:
  assumes t: "map_of (PATHS W) m0 = Some t"
    and r: "rs = [] \<or> map_of (REGEX_PATHS W) m0 \<noteq> None"
  shows "\<exists>Wn new. register_methods c ma ps rs (m0 # rest) W = register_methods c ma ps rs rest Wn
     \<and> (\<forall>m p. lookup (PATHS Wn) m p
            = (if m = m0 \<and> p \<in> set ps then Some (Some c) else lookup (PATHS W) m p))
     \<and> (\<forall>m p. lookup (REGEX_PATHS Wn) m p
            = (if m = m0 \<and> p \<in> set rs then Some (Some c) else lookup (REGEX_PATHS W) m p))
     \<and> (\<forall>m. map_of (PATHS Wn) m \<noteq> None \<longleftrightarrow> map_of (PATHS W) m \<noteq> None)
     \<and> (\<forall>m. map_of (REGEX_PATHS Wn) m \<noteq> None \<longleftrightarrow> map_of (REGEX_PATHS W) m \<noteq> None)
     \<and> stdout Wn = stdout W @ new
     \<and> (\<forall>p \<in> set ps. lookup (PATHS W) m0 p \<noteq> None \<longrightarrow> overwrite_warning m0 p \<in> set new)
     \<and> (\<forall>p \<in> set rs. lookup (REGEX_PATHS W) m0 p \<noteq> None
            \<longrightarrow> regex_overwrite_warning m0 p \<in> set new)
     \<and> (distinct ps \<and> distinct rs \<longrightarrow>
          new = map (overwrite_warning m0) (filter (\<lambda>p. lookup (PATHS W) m0 p \<noteq> None) ps)
                @ map (regex_overwrite_warning m0)
                    (filter (\<lambda>p. lookup (REGEX_PATHS W) m0 p \<noteq> None) rs))"
proof -
  define t' where "t' = fst (register_paths m0 [] c ps (t, stdout W))"
  obtain new1 where n1: "snd (register_paths m0 [] c ps (t, stdout W)) = stdout W @ new1"
    and m1: "\<forall>p \<in> set ps. map_of t p \<noteq> None \<longrightarrow> overwrite_warning m0 p \<in> set new1"
    and e1: "distinct ps \<longrightarrow>
        new1 = map (overwrite_warning m0) (filter (\<lambda>p. map_of t p \<noteq> None) ps)"
    using register_paths_out [of m0 "[]" c ps t "stdout W"] by auto
  define W1 where "W1 = W\<lparr>PATHS := AList.update m0 t' (PATHS W), stdout := stdout W @ new1\<rparr>"
  have rp: "register_paths m0 [] c ps (t, stdout W) = (t', stdout W @ new1)"
    using n1 by (simp add: t'_def prod_eq_iff)
  have l0: "\<And>p. lookup (PATHS W) m0 p = map_of t p"
    using t by (simp add: lookup_def)
  have P1: "\<And>m p. lookup (PATHS W1) m p
      = (if m = m0 \<and> p \<in> set ps then Some (Some c) else lookup (PATHS W) m p)"
    by (auto simp: W1_def lookup_update t'_def register_paths_map_of l0)
  have K1: "\<And>m. map_of (PATHS W1) m \<noteq> None \<longleftrightarrow> map_of (PATHS W) m \<noteq> None"
    using t by (simp add: W1_def update_conv')
  have m1': "\<forall>p \<in> set ps. lookup (PATHS W) m0 p \<noteq> None \<longrightarrow> overwrite_warning m0 p \<in> set new1"
    using m1 by (simp add: l0)
  have e1': "distinct ps \<longrightarrow>
      new1 = map (overwrite_warning m0) (filter (\<lambda>p. lookup (PATHS W) m0 p \<noteq> None) ps)"
    using e1 by (simp add: l0)
  show ?thesis
  proof (cases "rs = []")
    case True
    have step: "register_methods c ma ps rs (m0 # rest) W = register_methods c ma ps rs rest W1"
      using t True rp by (simp add: W1_def)
    have R1: "\<And>m p. lookup (REGEX_PATHS W1) m p
        = (if m = m0 \<and> p \<in> set rs then Some (Some c) else lookup (REGEX_PATHS W) m p)"
      using True by (simp add: W1_def)
    have KR: "\<And>m. map_of (REGEX_PATHS W1) m \<noteq> None \<longleftrightarrow> map_of (REGEX_PATHS W) m \<noteq> None"
      by (simp add: W1_def)
    have O: "stdout W1 = stdout W @ new1" by (simp add: W1_def)
    have m2: "\<forall>p \<in> set rs. lookup (REGEX_PATHS W) m0 p \<noteq> None
        \<longrightarrow> regex_overwrite_warning m0 p \<in> set new1"
      using True by simp
    have e2: "distinct ps \<and> distinct rs \<longrightarrow>
        new1 = map (overwrite_warning m0) (filter (\<lambda>p. lookup (PATHS W) m0 p \<noteq> None) ps)
               @ map (regex_overwrite_warning m0)
                   (filter (\<lambda>p. lookup (REGEX_PATHS W) m0 p \<noteq> None) rs)"
      using e1' True by simp
    show ?thesis
      by (rule exI [of _ W1], rule exI [of _ new1])
         (intro conjI allI step P1 R1 K1 KR O m1' m2 e2)
  next
    case False
    with r obtain rt where rt: "map_of (REGEX_PATHS W) m0 = Some rt" by auto
    define rt' where "rt' = fst (register_paths m0 '' (RegEx)'' c rs (rt, stdout W @ new1))"
    obtain new2 where
      n2: "snd (register_paths m0 '' (RegEx)'' c rs (rt, stdout W @ new1))
          = (stdout W @ new1) @ new2"
      and m2: "\<forall>p \<in> set rs. map_of rt p \<noteq> None
          \<longrightarrow> overwrite_warning m0 p @ '' (RegEx)'' \<in> set new2"
      and e2: "distinct rs \<longrightarrow>
          new2 = map (\<lambda>p. overwrite_warning m0 p @ '' (RegEx)'')
                   (filter (\<lambda>p. map_of rt p \<noteq> None) rs)"
      using register_paths_out [of m0 "'' (RegEx)''" c rs rt "stdout W @ new1"] by auto
    define W2 where "W2 = W1\<lparr>REGEX_PATHS := AList.update m0 rt' (REGEX_PATHS W1),
        stdout := (stdout W @ new1) @ new2\<rparr>"
    have rp2: "register_paths m0 '' (RegEx)'' c rs (rt, stdout W @ new1)
        = (rt', (stdout W @ new1) @ new2)"
      using n2 by (simp add: rt'_def prod_eq_iff)
    have r0: "\<And>p. lookup (REGEX_PATHS W) m0 p = map_of rt p"
      using rt by (simp add: lookup_def)
    have step: "register_methods c ma ps rs (m0 # rest) W = register_methods c ma ps rs rest W2"
      using t False rp rp2 rt by (simp add: W1_def W2_def)
    have P2: "\<And>m p. lookup (PATHS W2) m p
        = (if m = m0 \<and> p \<in> set ps then Some (Some c) else lookup (PATHS W) m p)"
      using P1 by (simp add: W2_def)
    have R2: "\<And>m p. lookup (REGEX_PATHS W2) m p
        = (if m = m0 \<and> p \<in> set rs then Some (Some c) else lookup (REGEX_PATHS W) m p)"
      by (auto simp: W2_def W1_def lookup_update rt'_def register_paths_map_of r0)
    have K2: "\<And>m. map_of (PATHS W2) m \<noteq> None \<longleftrightarrow> map_of (PATHS W) m \<noteq> None"
      using K1 by (simp add: W2_def)
    have KR: "\<And>m. map_of (REGEX_PATHS W2) m \<noteq> None \<longleftrightarrow> map_of (REGEX_PATHS W) m \<noteq> None"
      using rt by (simp add: W1_def W2_def update_conv')
    have O: "stdout W2 = stdout W @ (new1 @ new2)" by (simp add: W2_def)
    have m1'': "\<forall>p \<in> set ps. lookup (PATHS W) m0 p \<noteq> None
        \<longrightarrow> overwrite_warning m0 p \<in> set (new1 @ new2)"
      using m1' by simp
    have m2': "\<forall>p \<in> set rs. lookup (REGEX_PATHS W) m0 p \<noteq> None
        \<longrightarrow> regex_overwrite_warning m0 p \<in> set (new1 @ new2)"
      using m2 by (simp add: r0 regex_overwrite_warning_def)
    have rw: "(\<lambda>p. overwrite_warning m0 p @ '' (RegEx)'') = regex_overwrite_warning m0"
      by (rule ext) (simp add: regex_overwrite_warning_def)
    have e3: "distinct ps \<and> distinct rs \<longrightarrow>
        new1 @ new2 = map (overwrite_warning m0) (filter (\<lambda>p. lookup (PATHS W) m0 p \<noteq> None) ps)
               @ map (regex_overwrite_warning m0)
                   (filter (\<lambda>p. lookup (REGEX_PATHS W) m0 p \<noteq> None) rs)"
      using e1' e2 by (simp add: r0 rw)
    show ?thesis
      by (rule exI [of _ W2], rule exI [of _ "new1 @ new2"])
         (intro conjI allI step P2 R2 K2 KR O m1'' m2' e3)
  qed
qed

lemma expected_warnings_Cons:
  "expected_warnings W (m0 # ms) ps rs
     = (map (overwrite_warning m0) (filter (\<lambda>p. lookup (PATHS W) m0 p \<noteq> None) ps)
        @ map (regex_overwrite_warning m0) (filter (\<lambda>p. lookup (REGEX_PATHS W) m0 p \<noteq> None) rs))
       @ expected_warnings W ms ps rs"
  by (simp add: expected_warnings_def)

lemma expected_warnings_cong:
  assumes "\<And>m p. m \<in> set ms \<Longrightarrow> lookup (PATHS W') m p = lookup (PATHS W) m p"
    and "\<And>m p. m \<in> set ms \<Longrightarrow> lookup (REGEX_PATHS W') m p = lookup (REGEX_PATHS W) m p"
  shows "expected_warnings W' ms ps rs = expected_warnings W ms ps rs"
  unfolding expected_warnings_def
  by (rule arg_cong [where f = concat], rule map_cong [OF refl]) (simp add: assms)

lemma register_methods_success:
  assumes "\<forall>m \<in> set ms. map_of (PATHS W) m \<noteq> None"
    and "rs = [] \<or> (\<forall>m \<in> set ms. map_of (REGEX_PATHS W) m \<noteq> None)"
  shows "\<exists>new. fst (register_methods c ma ps rs ms W) = Inr ()
     \<and> (\<forall>m p. lookup (PATHS (snd (register_methods c ma ps rs ms W))) m p
            = (if m \<in> set ms \<and> p \<in> set ps then Some (Some c) else lookup (PATHS W) m p))
     \<and> (\<forall>m p. lookup (REGEX_PATHS (snd (register_methods c ma ps rs ms W))) m p
            = (if m \<in> set ms \<and> p \<in> set rs then Some (Some c)
               else lookup (REGEX_PATHS W) m p))
     \<and> stdout (snd (register_methods c ma ps rs ms W)) = stdout W @ new
     \<and> (\<forall>m p. m \<in> set ms \<and> p \<in> set ps \<and> lookup (PATHS W) m p \<noteq> None
            \<longrightarrow> overwrite_warning m p \<in> set new)
     \<and> (\<forall>m p. m \<in> set ms \<and> p \<in> set rs \<and> lookup (REGEX_PATHS W) m p \<noteq> None
            \<longrightarrow> regex_overwrite_warning m p \<in> set new)
     \<and> (distinct ms \<and> distinct ps \<and> distinct rs \<longrightarrow> new = expected_warnings W ms ps rs)"
  using assms
proof (induction ms arbitrary: W)
  case Nil
  show ?case by (simp add: expected_warnings_def)
next
  case (Cons m0 ms)
  from Cons.prems(1) obtain t where t: "map_of (PATHS W) m0 = Some t" by auto
  from Cons.prems(2) have r: "rs = [] \<or> map_of (REGEX_PATHS W) m0 \<noteq> None" by auto
  from register_methods_step [OF t r, of c ma ps ms]
  obtain Wn new0
    where step: "register_methods c ma ps rs (m0 # ms) W = register_methods c ma ps rs ms Wn"
    and P: "\<And>m p. lookup (PATHS Wn) m p
        = (if m = m0 \<and> p \<in> set ps then Some (Some c) else lookup (PATHS W) m p)"
    and R: "\<And>m p. lookup (REGEX_PATHS Wn) m p
        = (if m = m0 \<and> p \<in> set rs then Some (Some c) else lookup (REGEX_PATHS W) m p)"
    and KP: "\<And>m. map_of (PATHS Wn) m \<noteq> None \<longleftrightarrow> map_of (PATHS W) m \<noteq> None"
    and KR: "\<And>m. map_of (REGEX_PATHS Wn) m \<noteq> None \<longleftrightarrow> map_of (REGEX_PATHS W) m \<noteq> None"
    and O: "stdout Wn = stdout W @ new0"
    and M1: "\<forall>p \<in> set ps. lookup (PATHS W) m0 p \<noteq> None \<longrightarrow> overwrite_warning m0 p \<in> set new0"
    and M2: "\<forall>p \<in> set rs. lookup (REGEX_PATHS W) m0 p \<noteq> None
        \<longrightarrow> regex_overwrite_warning m0 p \<in> set new0"
    and E: "distinct ps \<and> distinct rs \<longrightarrow>
        new0 = map (overwrite_warning m0) (filter (\<lambda>p. lookup (PATHS W) m0 p \<noteq> None) ps)
               @ map (regex_overwrite_warning m0)
                   (filter (\<lambda>p. lookup (REGEX_PATHS W) m0 p \<noteq> None) rs)"
    by blast
  have pre1: "\<forall>m \<in> set ms. map_of (PATHS Wn) m \<noteq> None"
    using Cons.prems(1) by (simp add: KP del: not_None_eq)
  have pre2: "rs = [] \<or> (\<forall>m \<in> set ms. map_of (REGEX_PATHS Wn) m \<noteq> None)"
    using Cons.prems(2) by (auto simp: KR simp del: not_None_eq)
  let ?R = "register_methods c ma ps rs ms Wn"
  from Cons.IH [OF pre1 pre2] obtain new1 where
    1: "fst ?R = Inr ()"
    and 2: "\<And>m p. lookup (PATHS (snd ?R)) m p
        = (if m \<in> set ms \<and> p \<in> set ps then Some (Some c) else lookup (PATHS Wn) m p)"
    and 3: "\<And>m p. lookup (REGEX_PATHS (snd ?R)) m p
        = (if m \<in> set ms \<and> p \<in> set rs then Some (Some c) else lookup (REGEX_PATHS Wn) m p)"
    and 4: "stdout (snd ?R) = stdout Wn @ new1"
    and 5: "\<forall>m p. m \<in> set ms \<and> p \<in> set ps \<and> lookup (PATHS Wn) m p \<noteq> None
        \<longrightarrow> overwrite_warning m p \<in> set new1"
    and 6: "\<forall>m p. m \<in> set ms \<and> p \<in> set rs \<and> lookup (REGEX_PATHS Wn) m p \<noteq> None
        \<longrightarrow> regex_overwrite_warning m p \<in> set new1"
    and 7: "distinct ms \<and> distinct ps \<and> distinct rs \<longrightarrow> new1 = expected_warnings Wn ms ps rs"
    by blast
  have a: "fst (register_methods c ma ps rs (m0 # ms) W) = Inr ()"
    unfolding step by (rule 1)
  have b: "\<forall>m p. lookup (PATHS (snd (register_methods c ma ps rs (m0 # ms) W))) m p
      = (if m \<in> set (m0 # ms) \<and> p \<in> set ps then Some (Some c) else lookup (PATHS W) m p)"
    unfolding step by (simp add: 2 P)
  have b': "\<forall>m p. lookup (REGEX_PATHS (snd (register_methods c ma ps rs (m0 # ms) W))) m p
      = (if m \<in> set (m0 # ms) \<and> p \<in> set rs then Some (Some c)
         else lookup (REGEX_PATHS W) m p)"
    unfolding step by (simp add: 3 R)
  have o: "stdout (snd (register_methods c ma ps rs (m0 # ms) W)) = stdout W @ (new0 @ new1)"
    unfolding step by (simp add: 4 O)
  have w1: "\<forall>m p. m \<in> set (m0 # ms) \<and> p \<in> set ps \<and> lookup (PATHS W) m p \<noteq> None
      \<longrightarrow> overwrite_warning m p \<in> set (new0 @ new1)"
  proof (intro allI impI)
    fix m p assume h: "m \<in> set (m0 # ms) \<and> p \<in> set ps \<and> lookup (PATHS W) m p \<noteq> None"
    show "overwrite_warning m p \<in> set (new0 @ new1)"
    proof (cases "m = m0")
      case True
      with h M1 show ?thesis by simp
    next
      case False
      with h have "m \<in> set ms \<and> p \<in> set ps \<and> lookup (PATHS Wn) m p \<noteq> None"
        by (simp add: P)
      with 5 show ?thesis by simp
    qed
  qed
  have w2: "\<forall>m p. m \<in> set (m0 # ms) \<and> p \<in> set rs \<and> lookup (REGEX_PATHS W) m p \<noteq> None
      \<longrightarrow> regex_overwrite_warning m p \<in> set (new0 @ new1)"
  proof (intro allI impI)
    fix m p assume h: "m \<in> set (m0 # ms) \<and> p \<in> set rs \<and> lookup (REGEX_PATHS W) m p \<noteq> None"
    show "regex_overwrite_warning m p \<in> set (new0 @ new1)"
    proof (cases "m = m0")
      case True
      with h M2 show ?thesis by simp
    next
      case False
      with h have "m \<in> set ms \<and> p \<in> set rs \<and> lookup (REGEX_PATHS Wn) m p \<noteq> None"
        by (simp add: R)
      with 6 show ?thesis by simp
    qed
  qed
  have e: "distinct (m0 # ms) \<and> distinct ps \<and> distinct rs
      \<longrightarrow> new0 @ new1 = expected_warnings W (m0 # ms) ps rs"
  proof
    assume d: "distinct (m0 # ms) \<and> distinct ps \<and> distinct rs"
    then have n0: "m0 \<notin> set ms" by simp
    have "expected_warnings Wn ms ps rs = expected_warnings W ms ps rs"
      using n0 by (intro expected_warnings_cong) (auto simp: P R)
    with 7 d have "new1 = expected_warnings W ms ps rs" by simp
    moreover from E d have "new0
        = map (overwrite_warning m0) (filter (\<lambda>p. lookup (PATHS W) m0 p \<noteq> None) ps)
          @ map (regex_overwrite_warning m0)
              (filter (\<lambda>p. lookup (REGEX_PATHS W) m0 p \<noteq> None) rs)"
      by simp
    ultimately show "new0 @ new1 = expected_warnings W (m0 # ms) ps rs"
      by (simp only: expected_warnings_Cons)
  qed
  show ?case
    by (rule exI [of _ "new0 @ new1"]) (intro conjI a b b' o w1 w2 e)
qed

text \<open>
  Whatever the outcome of the loop, a path that was a key of a table stays one, and the
  lines printed before stay.
\<close>

lemma register_methods_keeps:
  "(\<forall>m p. lookup (PATHS W) m p \<noteq> None
       \<longrightarrow> lookup (PATHS (snd (register_methods c ma ps rs ms W))) m p \<noteq> None)
   \<and> (\<forall>m p. lookup (REGEX_PATHS W) m p \<noteq> None
       \<longrightarrow> lookup (REGEX_PATHS (snd (register_methods c ma ps rs ms W))) m p \<noteq> None)
   \<and> (\<exists>new. stdout (snd (register_methods c ma ps rs ms W)) = stdout W @ new)"
proof (induction ms arbitrary: W)
  case Nil
  show ?case by simp
next
  case (Cons m0 ms)
  show ?case
  proof (cases "map_of (PATHS W) m0")
    case None
    then show ?thesis by (simp split: option.splits)
  next
    case (Some t)
    show ?thesis
    proof (cases "rs = [] \<or> map_of (REGEX_PATHS W) m0 \<noteq> None")
      case True
      from register_methods_step [OF Some True, of c ma ps ms]
      obtain Wn new0
        where step: "register_methods c ma ps rs (m0 # ms) W = register_methods c ma ps rs ms Wn"
        and P: "\<And>m p. lookup (PATHS Wn) m p
            = (if m = m0 \<and> p \<in> set ps then Some (Some c) else lookup (PATHS W) m p)"
        and R: "\<And>m p. lookup (REGEX_PATHS Wn) m p
            = (if m = m0 \<and> p \<in> set rs then Some (Some c) else lookup (REGEX_PATHS W) m p)"
        and O: "stdout Wn = stdout W @ new0"
        by blast
      from Cons.IH [of Wn] obtain new1 where
        kp: "\<And>m p. lookup (PATHS Wn) m p \<noteq> None
            \<Longrightarrow> lookup (PATHS (snd (register_methods c ma ps rs ms Wn))) m p \<noteq> None"
        and kr: "\<And>m p. lookup (REGEX_PATHS Wn) m p \<noteq> None
            \<Longrightarrow> lookup (REGEX_PATHS (snd (register_methods c ma ps rs ms Wn))) m p \<noteq> None"
        and o: "stdout (snd (register_methods c ma ps rs ms Wn)) = stdout Wn @ new1"
        by blast
      have a: "\<forall>m p. lookup (PATHS W) m p \<noteq> None
          \<longrightarrow> lookup (PATHS (snd (register_methods c ma ps rs (m0 # ms) W))) m p \<noteq> None"
        unfolding step by (intro allI impI kp) (simp add: P)
      have b: "\<forall>m p. lookup (REGEX_PATHS W) m p \<noteq> None
          \<longrightarrow> lookup (REGEX_PATHS (snd (register_methods c ma ps rs (m0 # ms) W))) m p \<noteq> None"
        unfolding step by (intro allI impI kr) (simp add: R)
      have c: "\<exists>new. stdout (snd (register_methods c ma ps rs (m0 # ms) W)) = stdout W @ new"
        unfolding step by (simp add: o O)
      from a b c show ?thesis by blast
    next
      case False
      then have rs: "rs \<noteq> []" and nr: "map_of (REGEX_PATHS W) m0 = None" by auto
      define t' where "t' = fst (register_paths m0 [] c ps (t, stdout W))"
      obtain new1 where n1: "snd (register_paths m0 [] c ps (t, stdout W)) = stdout W @ new1"
        using register_paths_out [of m0 "[]" c ps t "stdout W"] by auto
      have rp: "register_paths m0 [] c ps (t, stdout W) = (t', stdout W @ new1)"
        using n1 by (simp add: t'_def prod_eq_iff)
      have res: "snd (register_methods c ma ps rs (m0 # ms) W)
          = W\<lparr>PATHS := AList.update m0 t' (PATHS W), stdout := stdout W @ new1\<rparr>"
        using Some rs nr rp by simp
      have l0: "\<And>p. lookup (PATHS W) m0 p = map_of t p"
        using Some by (simp add: lookup_def)
      have a: "\<forall>m p. lookup (PATHS W) m p \<noteq> None
          \<longrightarrow> lookup (PATHS (snd (register_methods c ma ps rs (m0 # ms) W))) m p \<noteq> None"
        unfolding res by (auto simp: lookup_update t'_def register_paths_map_of l0)
      have b: "\<forall>m p. lookup (REGEX_PATHS W) m p \<noteq> None
          \<longrightarrow> lookup (REGEX_PATHS (snd (register_methods c ma ps rs (m0 # ms) W))) m p \<noteq> None"
        unfolding res by simp
      have c: "\<exists>new. stdout (snd (register_methods c ma ps rs (m0 # ms) W)) = stdout W @ new"
        unfolding res by simp
      from a b c show ?thesis by blast
    qed
  qed
qed

lemma init_subclass_keeps:
  "(\<forall>m p. lookup (PATHS W) m p \<noteq> None
       \<longrightarrow> lookup (PATHS (snd (init_subclass W d))) m p \<noteq> None)
   \<and> (\<forall>m p. lookup (REGEX_PATHS W) m p \<noteq> None
       \<longrightarrow> lookup (REGEX_PATHS (snd (init_subclass W d))) m p \<noteq> None)
   \<and> (\<exists>new. stdout (snd (init_subclass W d)) = stdout W @ new)"
proof (cases "decl_METHODS d")
  case None
  then have "snd (init_subclass W d) = W" by (simp add: init_subclass_def)
  then show ?thesis by simp
next
  case (Some methods)
  show ?thesis
  proof (cases "init_subclass W d
      = register_methods (class_of d) (decl_METHOD d) (cls_PATHS d) (cls_REGEX_PATHS d) methods W")
    case True
    show ?thesis unfolding True by (rule register_methods_keeps)
  next
    case False
    with Some have "snd (init_subclass W d) = W"
      by (simp add: init_subclass_def split: if_splits)
    then show ?thesis by simp
  qed
qed

lemma init_subclass_registrable:
  assumes "registrable W d"
  shows "init_subclass W d
    = register_methods (class_of d) (decl_METHOD d) (cls_PATHS d) (cls_REGEX_PATHS d) (cls_METHODS d) W"
    and "\<forall>m \<in> set (cls_METHODS d). map_of (PATHS W) m \<noteq> None"
    and "cls_REGEX_PATHS d = [] \<or> (\<forall>m \<in> set (cls_METHODS d). map_of (REGEX_PATHS W) m \<noteq> None)"
  using assms
  by (auto simp: registrable_def init_subclass_def cls_METHODS_def list_all_iff split: option.splits)

text \<open>
  C9. Registering a class that passes the checks of \<open>__init_subclass__\<close> succeeds
  also when some of its (method, path) pairs are bound already, in the table of exact
  paths or in the table of regular-expression paths. Afterwards every pair of a method
  and a path of the class is bound to the new class, in either table; the lines printed
  are those printed before followed by new ones, among them a warning line for each pair
  that was bound before (marked \<open>(RegEx)\<close> for a regular-expression path), and when
  the methods and paths of the class are listed without repetition the new lines are
  exactly these warnings, method by method; every other binding is as before. And for
  every registration, failed ones included, no path that was a key of a table stops
  being one.
\<close>

theorem reregistration_overwrites:
  "(registrable W d \<longrightarrow>
      (\<exists>new. fst (init_subclass W d) = Inr ()
         \<and> (\<forall>m p. m \<in> set (cls_METHODS d) \<and> p \<in> set (cls_PATHS d)
                \<longrightarrow> lookup (PATHS (snd (init_subclass W d))) m p = Some (Some (class_of d)))
         \<and> (\<forall>m p. m \<in> set (cls_METHODS d) \<and> p \<in> set (cls_REGEX_PATHS d)
                \<longrightarrow> lookup (REGEX_PATHS (snd (init_subclass W d))) m p
                    = Some (Some (class_of d)))
         \<and> stdout (snd (init_subclass W d)) = stdout W @ new
         \<and> (\<forall>m p. m \<in> set (cls_METHODS d) \<and> p \<in> set (cls_PATHS d)
                  \<and> lookup (PATHS W) m p \<noteq> None
                \<longrightarrow> overwrite_warning m p \<in> set new)
         \<and> (\<forall>m p. m \<in> set (cls_METHODS d) \<and> p \<in> set (cls_REGEX_PATHS d)
                  \<and> lookup (REGEX_PATHS W) m p \<noteq> None
                \<longrightarrow> regex_overwrite_warning m p \<in> set new)
         \<and> (distinct (cls_METHODS d) \<and> distinct (cls_PATHS d) \<and> distinct (cls_REGEX_PATHS d)
                \<longrightarrow> new = expected_warnings W (cls_METHODS d) (cls_PATHS d) (cls_REGEX_PATHS d))
         \<and> (\<forall>m p. \<not> (m \<in> set (cls_METHODS d) \<and> p \<in> set (cls_PATHS d))
                \<longrightarrow> lookup (PATHS (snd (init_subclass W d))) m p = lookup (PATHS W) m p)
         \<and> (\<forall>m p. \<not> (m \<in> set (cls_METHODS d) \<and> p \<in> set (cls_REGEX_PATHS d))
                \<longrightarrow> lookup (REGEX_PATHS (snd (init_subclass W d))) m p
                    = lookup (REGEX_PATHS W) m p)))
   \<and> (\<forall>m p. lookup (PATHS W) m p \<noteq> None
          \<longrightarrow> lookup (PATHS (snd (init_subclass W d))) m p \<noteq> None)
   \<and> (\<forall>m p. lookup (REGEX_PATHS W) m p \<noteq> None
          \<longrightarrow> lookup (REGEX_PATHS (snd (init_subclass W d))) m p \<noteq> None)"
proof (intro conjI impI)
  assume reg: "registrable W d"
  note i = init_subclass_registrable [OF reg]
  let ?R = "register_methods (class_of d) (decl_METHOD d) (cls_PATHS d) (cls_REGEX_PATHS d)
      (cls_METHODS d) W"
  from register_methods_success [OF i(2) i(3), of "class_of d" "decl_METHOD d" "cls_PATHS d"]
  obtain new where 1: "fst ?R = Inr ()"
    and 2: "\<And>m p. lookup (PATHS (snd ?R)) m p
        = (if m \<in> set (cls_METHODS d) \<and> p \<in> set (cls_PATHS d) then Some (Some (class_of d))
           else lookup (PATHS W) m p)"
    and 3: "\<And>m p. lookup (REGEX_PATHS (snd ?R)) m p
        = (if m \<in> set (cls_METHODS d) \<and> p \<in> set (cls_REGEX_PATHS d)
           then Some (Some (class_of d)) else lookup (REGEX_PATHS W) m p)"
    and 4: "stdout (snd ?R) = stdout W @ new"
    and 5: "\<forall>m p. m \<in> set (cls_METHODS d) \<and> p \<in> set (cls_PATHS d)
          \<and> lookup (PATHS W) m p \<noteq> None
        \<longrightarrow> overwrite_warning m p \<in> set new"
    and 6: "\<forall>m p. m \<in> set (cls_METHODS d) \<and> p \<in> set (cls_REGEX_PATHS d)
          \<and> lookup (REGEX_PATHS W) m p \<noteq> None
        \<longrightarrow> regex_overwrite_warning m p \<in> set new"
    and 7: "distinct (cls_METHODS d) \<and> distinct (cls_PATHS d) \<and> distinct (cls_REGEX_PATHS d)
        \<longrightarrow> new = expected_warnings W (cls_METHODS d) (cls_PATHS d) (cls_REGEX_PATHS d)"
    by blast
  have a: "fst (init_subclass W d) = Inr ()" unfolding i(1) by (rule 1)
  have b: "\<forall>m p. m \<in> set (cls_METHODS d) \<and> p \<in> set (cls_PATHS d)
      \<longrightarrow> lookup (PATHS (snd (init_subclass W d))) m p = Some (Some (class_of d))"
    unfolding i(1) by (simp add: 2)
  have c: "\<forall>m p. m \<in> set (cls_METHODS d) \<and> p \<in> set (cls_REGEX_PATHS d)
      \<longrightarrow> lookup (REGEX_PATHS (snd (init_subclass W d))) m p = Some (Some (class_of d))"
    unfolding i(1) by (simp add: 3)
  have o: "stdout (snd (init_subclass W d)) = stdout W @ new" unfolding i(1) by (rule 4)
  have e: "\<forall>m p. \<not> (m \<in> set (cls_METHODS d) \<and> p \<in> set (cls_PATHS d))
      \<longrightarrow> lookup (PATHS (snd (init_subclass W d))) m p = lookup (PATHS W) m p"
    unfolding i(1) by (simp add: 2)
  have f: "\<forall>m p. \<not> (m \<in> set (cls_METHODS d) \<and> p \<in> set (cls_REGEX_PATHS d))
      \<longrightarrow> lookup (REGEX_PATHS (snd (init_subclass W d))) m p = lookup (REGEX_PATHS W) m p"
    unfolding i(1) by (simp add: 3)
  show "\<exists>new. fst (init_subclass W d) = Inr ()
         \<and> (\<forall>m p. m \<in> set (cls_METHODS d) \<and> p \<in> set (cls_PATHS d)
                \<longrightarrow> lookup (PATHS (snd (init_subclass W d))) m p = Some (Some (class_of d)))
         \<and> (\<forall>m p. m \<in> set (cls_METHODS d) \<and> p \<in> set (cls_REGEX_PATHS d)
                \<longrightarrow> lookup (REGEX_PATHS (snd (init_subclass W d))) m p
                    = Some (Some (class_of d)))
         \<and> stdout (snd (init_subclass W d)) = stdout W @ new
         \<and> (\<forall>m p. m \<in> set (cls_METHODS d) \<and> p \<in> set (cls_PATHS d)
                  \<and> lookup (PATHS W) m p \<noteq> None
                \<longrightarrow> overwrite_warning m p \<in> set new)
         \<and> (\<forall>m p. m \<in> set (cls_METHODS d) \<and> p \<in> set (cls_REGEX_PATHS d)
                  \<and> lookup (REGEX_PATHS W) m p \<noteq> None
                \<longrightarrow> regex_overwrite_warning m p \<in> set new)
         \<and> (distinct (cls_METHODS d) \<and> distinct (cls_PATHS d) \<and> distinct (cls_REGEX_PATHS d)
                \<longrightarrow> new = expected_warnings W (cls_METHODS d) (cls_PATHS d) (cls_REGEX_PATHS d))
         \<and> (\<forall>m p. \<not> (m \<in> set (cls_METHODS d) \<and> p \<in> set (cls_PATHS d))
                \<longrightarrow> lookup (PATHS (snd (init_subclass W d))) m p = lookup (PATHS W) m p)
         \<and> (\<forall>m p. \<not> (m \<in> set (cls_METHODS d) \<and> p \<in> set (cls_REGEX_PATHS d))
                \<longrightarrow> lookup (REGEX_PATHS (snd (init_subclass W d))) m p
                    = lookup (REGEX_PATHS W) m p)"
    by (rule exI [of _ new]) (intro conjI a b c o 5 6 7 e f)
next
  show "\<forall>m p. lookup (PATHS W) m p \<noteq> None
      \<longrightarrow> lookup (PATHS (snd (init_subclass W d))) m p \<noteq> None"
    using init_subclass_keeps [of W d] by blast
next
  show "\<forall>m p. lookup (REGEX_PATHS W) m p \<noteq> None
      \<longrightarrow> lookup (REGEX_PATHS (snd (init_subclass W d))) m p \<noteq> None"
    using init_subclass_keeps [of W d] by blast
qed

lemma endpoints_REGEX_PATHS_eq:
  "REGEX_PATHS endpoints_WebPathMap = REGEX_PATHS WebPathMap_initial"
  "stdout endpoints_WebPathMap = []"
  by (simp_all add: endpoints_WebPathMap_def init_subclass_def WebPathMap_initial_def
      ExampleEndpoint01_def ExampleEndpoint02_def ExampleEndpoint06_def
      cls_DISABLE_HEAD_REQUESTS_def cls_DISABLE_OPTIONS_REQUESTS_def cls_RESPONSE_ENCODING_def
      cls_PARSE_TEMPLATE_def cls_TEMPLATE_ENCODING_def attr_or_def is_bool_def is_str_def Let_def
      cls_PATHS_def cls_REGEX_PATHS_def)

theorem reregistration_overwrites_witness:
  "(let first = ExampleEndpoint01\<lparr>decl_PATHS := None, decl_REGEX_PATHS := Some [''/items/[0-9]+'']\<rparr>;
        W = snd (init_subclass endpoints_WebPathMap first);
        d = ExampleEndpoint06\<lparr>decl_PATHS := Some [''/example01''],
                               decl_REGEX_PATHS := Some [''/items/[0-9]+'']\<rparr>;
        W' = snd (init_subclass W d)
    in registrable W d
     \<and> fst (init_subclass W d) = Inr ()
     \<and> lookup (PATHS W) ''GET'' ''/example01'' = Some (Some (class_of ExampleEndpoint01))
     \<and> lookup (PATHS W') ''GET'' ''/example01'' = Some (Some (class_of d))
     \<and> lookup (REGEX_PATHS W) ''GET'' ''/items/[0-9]+'' = Some (Some (class_of first))
     \<and> lookup (REGEX_PATHS W') ''GET'' ''/items/[0-9]+'' = Some (Some (class_of d))
     \<and> stdout W' = stdout W @ [''[Warning] Overwriting GET /example01'',
                               ''[Warning] Overwriting GET /items/[0-9]+ (RegEx)'']
     \<and> lookup (PATHS W') ''POST'' ''/example2'' = Some (Some (class_of ExampleEndpoint02)))"
proof -
  define first where "first = ExampleEndpoint01\<lparr>decl_PATHS := None,
      decl_REGEX_PATHS := Some [''/items/[0-9]+'']\<rparr>"
  define W where "W = snd (init_subclass endpoints_WebPathMap first)"
  define d where "d = ExampleEndpoint06\<lparr>decl_PATHS := Some [''/example01''],
      decl_REGEX_PATHS := Some [''/items/[0-9]+'']\<rparr>"
  define W' where "W' = snd (init_subclass W d)"
  have WP: "PATHS W = PATHS endpoints_WebPathMap"
    and WR: "REGEX_PATHS W =
        [(''CONNECT'', []), (''DELETE'', []),
         (''GET'', [(''/items/[0-9]+'', Some (class_of first))]),
         (''PATCH'', []), (''POST'', []), (''PUT'', [])]"
    and WO: "stdout W = []"
    unfolding W_def first_def
    by (simp_all add: init_subclass_def ExampleEndpoint01_def endpoints_PATHS_eq
        endpoints_REGEX_PATHS_eq WebPathMap_initial_def
        cls_DISABLE_HEAD_REQUESTS_def cls_DISABLE_OPTIONS_REQUESTS_def cls_RESPONSE_ENCODING_def
        cls_PARSE_TEMPLATE_def cls_TEMPLATE_ENCODING_def attr_or_def is_bool_def is_str_def Let_def
        cls_PATHS_def cls_REGEX_PATHS_def)
  have ms: "cls_METHODS d = [''GET'']" by (simp add: d_def cls_METHODS_def ExampleEndpoint06_def)
  have ps: "cls_PATHS d = [''/example01'']" by (simp add: d_def cls_PATHS_def)
  have rs: "cls_REGEX_PATHS d = [''/items/[0-9]+'']" by (simp add: d_def cls_REGEX_PATHS_def)
  have reg: "registrable W d"
    unfolding registrable_def WP WR
    by (simp add: d_def ExampleEndpoint06_def cls_PATHS_def cls_REGEX_PATHS_def
        cls_DISABLE_HEAD_REQUESTS_def cls_DISABLE_OPTIONS_REQUESTS_def cls_RESPONSE_ENCODING_def
        cls_PARSE_TEMPLATE_def cls_TEMPLATE_ENCODING_def attr_or_def is_bool_def is_str_def
        endpoints_PATHS_eq)
  have old: "lookup (PATHS W) ''GET'' ''/example01'' = Some (Some (class_of ExampleEndpoint01))"
    by (simp add: lookup_def WP endpoints_PATHS_eq)
  have oldr: "lookup (REGEX_PATHS W) ''GET'' ''/items/[0-9]+'' = Some (Some (class_of first))"
    by (simp add: lookup_def WR)
  have other: "lookup (PATHS W) ''POST'' ''/example2'' = Some (Some (class_of ExampleEndpoint02))"
    by (simp add: lookup_def WP endpoints_PATHS_eq)
  have ew: "expected_warnings W (cls_METHODS d) (cls_PATHS d) (cls_REGEX_PATHS d)
      = [''[Warning] Overwriting GET /example01'',
         ''[Warning] Overwriting GET /items/[0-9]+ (RegEx)'']"
    unfolding ms ps rs
    by (simp add: expected_warnings_def old oldr overwrite_warning_def regex_overwrite_warning_def)
  from reregistration_overwrites [of W d, THEN conjunct1, THEN mp, OF reg]
  obtain new where 1: "fst (init_subclass W d) = Inr ()"
    and 2: "\<forall>m p. m \<in> set (cls_METHODS d) \<and> p \<in> set (cls_PATHS d)
             \<longrightarrow> lookup (PATHS W') m p = Some (Some (class_of d))"
    and 3: "\<forall>m p. m \<in> set (cls_METHODS d) \<and> p \<in> set (cls_REGEX_PATHS d)
             \<longrightarrow> lookup (REGEX_PATHS W') m p = Some (Some (class_of d))"
    and 4: "stdout W' = stdout W @ new"
    and 5: "distinct (cls_METHODS d) \<and> distinct (cls_PATHS d) \<and> distinct (cls_REGEX_PATHS d)
             \<longrightarrow> new = expected_warnings W (cls_METHODS d) (cls_PATHS d) (cls_REGEX_PATHS d)"
    and 6: "\<forall>m p. \<not> (m \<in> set (cls_METHODS d) \<and> p \<in> set (cls_PATHS d))
             \<longrightarrow> lookup (PATHS W') m p = lookup (PATHS W) m p"
    unfolding W'_def by (elim exE conjE) simp
  from 2 have a: "lookup (PATHS W') ''GET'' ''/example01'' = Some (Some (class_of d))"
    by (simp add: ms ps)
  from 3 have b: "lookup (REGEX_PATHS W') ''GET'' ''/items/[0-9]+'' = Some (Some (class_of d))"
    by (simp add: ms rs)
  have "distinct (cls_METHODS d) \<and> distinct (cls_PATHS d) \<and> distinct (cls_REGEX_PATHS d)"
    by (simp add: ms ps rs)
  with 5 ew have "new = [''[Warning] Overwriting GET /example01'',
         ''[Warning] Overwriting GET /items/[0-9]+ (RegEx)'']"
    by simp
  with 4 have c: "stdout W' = stdout W @ [''[Warning] Overwriting GET /example01'',
         ''[Warning] Overwriting GET /items/[0-9]+ (RegEx)'']"
    by simp
  from 6 other have e: "lookup (PATHS W') ''POST'' ''/example2''
      = Some (Some (class_of ExampleEndpoint02))"
    by (simp add: ms ps)
  have "registrable W d
     \<and> fst (init_subclass W d) = Inr ()
     \<and> lookup (PATHS W) ''GET'' ''/example01'' = Some (Some (class_of ExampleEndpoint01))
     \<and> lookup (PATHS W') ''GET'' ''/example01'' = Some (Some (class_of d))
     \<and> lookup (REGEX_PATHS W) ''GET'' ''/items/[0-9]+'' = Some (Some (class_of first))
     \<and> lookup (REGEX_PATHS W') ''GET'' ''/items/[0-9]+'' = Some (Some (class_of d))
     \<and> stdout W' = stdout W @ [''[Warning] Overwriting GET /example01'',
                               ''[Warning] Overwriting GET /items/[0-9]+ (RegEx)'']
     \<and> lookup (PATHS W') ''POST'' ''/example2'' = Some (Some (class_of ExampleEndpoint02))"
    by (intro conjI reg 1 old a oldr b c e)
  then show ?thesis
    unfolding Let_def W'_def W_def d_def first_def .
qed
section \<open>Request bodies of a declared length\<close>


























section \<open>Chunked request bodies\<close>










end
